theory Spec2Isabelle
  imports Complex_Main "HOL-Library.Multiset"
begin

section \<open>Values of the host platform\<close>

text \<open>
  The component under study is \<^verbatim>\<open>src/app/components/DinoGame.tsx\<close>. Its numbers are
  modelled as mathematical reals (integers where the code only ever holds an integer):
  rounding of IEEE doubles and overflow are not part of the model, so a floor is the
  floor of the exact product or quotient. The values that are not real numbers and that
  the code can really obtain, the results of \<^verbatim>\<open>Number\<close> on a stored text that is not a
  numeric literal (\<open>NaN\<close>) or that names or overflows to an infinity, are kept for the
  high score, the one place they can reach.
\<close>

datatype jsnum = NaN | NegInf | Num real | PosInf

text \<open>\<^verbatim>\<open>Math.max\<close> of two numbers.\<close>

fun js_max :: "jsnum \<Rightarrow> jsnum \<Rightarrow> jsnum" where
  "js_max NaN _ = NaN"
| "js_max _ NaN = NaN"
| "js_max PosInf _ = PosInf"
| "js_max _ PosInf = PosInf"
| "js_max NegInf b = b"
| "js_max a NegInf = a"
| "js_max (Num a) (Num b) = Num (max a b)"

text \<open>
  Values that \<^verbatim>\<open>JSON.parse\<close> can hand to the score-list code, classified by the two
  methods the code calls on them: an array of integers (has \<^verbatim>\<open>push\<close>, \<^verbatim>\<open>sort\<close> and
  \<^verbatim>\<open>slice\<close>), a string (has \<^verbatim>\<open>slice\<close> but no \<^verbatim>\<open>push\<close>), and any value with neither
  (null, a boolean, a number, an object). Arrays holding anything but integers are
  outside the model (sorting them with the comparator \<^verbatim>\<open>b - a\<close> is implementation-defined).
\<close>

datatype jsval = JNumArr "int list" | JStr string | JNoSlice

datatype exn = StorageError | SyntaxError | TypeError

text \<open>
  A stored text is represented by what the platform's decoder makes of it.
  For the key \<^verbatim>\<open>dinoHighScore\<close>: the empty text (falsy), or the result of \<^verbatim>\<open>Number\<close>.
  For the key \<^verbatim>\<open>dinoScores\<close>: the empty text, a text on which \<^verbatim>\<open>JSON.parse\<close> throws,
  or the parsed value. \<^verbatim>\<open>String\<close> and \<^verbatim>\<open>JSON.stringify\<close> write a text that decodes to
  the value written.
\<close>

datatype hs_text = HsEmpty | HsNumber jsnum

datatype json_text = JsonEmpty | JsonMalformed | JsonValue jsval

record storage =
  readable :: bool
  writable :: bool
  dinoHighScore :: "hs_text option"
  dinoScores :: "json_text option"

definition getItem :: "storage \<Rightarrow> (storage \<Rightarrow> 'a option) \<Rightarrow> exn + 'a option" where
  "getItem sto key = (if readable sto then Inr (key sto) else Inl StorageError)"

definition bind_exn :: "exn + 'a \<Rightarrow> ('a \<Rightarrow> exn + 'b) \<Rightarrow> exn + 'b" where
  "bind_exn m f = (case m of Inl e \<Rightarrow> Inl e | Inr v \<Rightarrow> f v)"

text \<open>\<^verbatim>\<open>try { body } catch { }\<close>: a throwing body leaves the state as it was.\<close>

definition try_catch :: "exn + 'a \<Rightarrow> 'a \<Rightarrow> exn + 'a" where
  "try_catch body unchanged = (case body of Inl _ \<Rightarrow> Inr unchanged | Inr v \<Rightarrow> Inr v)"

text \<open>\<^verbatim>\<open>raw ? JSON.parse(raw) : []\<close>\<close>

fun parse_or_empty :: "json_text option \<Rightarrow> exn + jsval" where
  "parse_or_empty None = Inr (JNumArr [])"
| "parse_or_empty (Some JsonEmpty) = Inr (JNumArr [])"
| "parse_or_empty (Some JsonMalformed) = Inl SyntaxError"
| "parse_or_empty (Some (JsonValue v)) = Inr v"

text \<open>\<^verbatim>\<open>arr.slice(0, 10)\<close>\<close>

fun slice10 :: "jsval \<Rightarrow> exn + jsval" where
  "slice10 (JNumArr xs) = Inr (JNumArr (take 10 xs))"
| "slice10 (JStr s) = Inr (JStr (take 10 s))"
| "slice10 JNoSlice = Inl TypeError"

text \<open>\<^verbatim>\<open>arr.push(score)\<close>\<close>

fun push :: "jsval \<Rightarrow> int \<Rightarrow> exn + int list" where
  "push (JNumArr xs) s = Inr (xs @ [s])"
| "push _ s = Inl TypeError"

text \<open>\<^verbatim>\<open>arr.sort((a, b) => b - a)\<close> on an array of integers: descending order.\<close>

definition sort_desc :: "int list \<Rightarrow> int list" where
  "sort_desc xs = sort_key uminus xs"

section \<open>Game state\<close>

record image =
  img_width :: nat
  img_height :: nat

record assets =
  img_ground :: "image option"
  img_cloud :: "image option"
  img_tree1 :: "image option"
  img_tree2 :: "image option"
  img_character :: "image option"

text \<open>\<^verbatim>\<open>img && img.width && img.height\<close>\<close>

fun usable :: "image option \<Rightarrow> bool" where
  "usable None = False"
| "usable (Some im) = (img_width im \<noteq> 0 \<and> img_height im \<noteq> 0)"

record obstacle =
  ob_x :: real
  ob_width :: int
  ob_height :: int
  ob_img :: "image option"

record cloud =
  cl_x :: real
  cl_y :: real
  cl_speed :: real
  cl_scale :: real

text \<open>
  The React state variables and the refs of the component, with the browser's
  \<^verbatim>\<open>localStorage\<close>. The three refs that only the drawing code reads and writes
  (\<^verbatim>\<open>runFrameRef\<close>, \<^verbatim>\<open>runFrameTimerRef\<close>, \<^verbatim>\<open>groundScrollRef\<close>) and the drawing itself are
  left out. \<^verbatim>\<open>gravityRef\<close> and \<^verbatim>\<open>jumpVelocityRef\<close> are never assigned: they are constants.
\<close>

record game =
  isGameOver :: bool
  isRunning :: bool
  showMenu :: bool
  showLeaderboard :: bool
  topScores :: jsval
  score :: int
  highScore :: jsnum
  playerY :: real
  playerVy :: real
  isOnGround :: bool
  speed :: real
  obstacles :: "obstacle list"
  spawnTimer :: real
  clouds :: "cloud list"
  cloudSpawnTimer :: real
  lastTime :: "real option"
  localStorage :: storage

definition gravity :: real where "gravity = 1350"
definition jumpVelocity :: real where "jumpVelocity = - 560"
definition PLAYER_WIDTH :: int where "PLAYER_WIDTH = 56"
definition PLAYER_HEIGHT :: int where "PLAYER_HEIGHT = 64"
definition RUN_FRAMES :: nat where "RUN_FRAMES = 4"

text \<open>
  The state as the hooks initialise it. The effect that sizes the canvas on mount
  (lines 178-201), which also puts the player on the ground line, is not modelled.
\<close>

definition initial_game :: "storage \<Rightarrow> game" where
  "initial_game sto =
     \<lparr> isGameOver = False, isRunning = False, showMenu = True, showLeaderboard = False,
       topScores = JNumArr [], score = 0, highScore = Num 0,
       playerY = 0, playerVy = 0, isOnGround = True, speed = 260,
       obstacles = [], spawnTimer = 0, clouds = [], cloudSpawnTimer = 0,
       lastTime = None, localStorage = sto \<rparr>"

section \<open>Persistence\<close>

text \<open>The mount effect that loads the high score (lines 70-75).\<close>

definition load_high_score :: "game \<Rightarrow> exn + game" where
  "load_high_score g =
     try_catch
       (bind_exn (getItem (localStorage g) dinoHighScore) (\<lambda>saved.
          case saved of
            None \<Rightarrow> Inr g
          | Some HsEmpty \<Rightarrow> Inr g
          | Some (HsNumber n) \<Rightarrow> Inr (g\<lparr>highScore := n\<rparr>)))
       g"

text \<open>The mount effect that preloads the leaderboard (lines 410-417).\<close>

definition load_top_scores :: "game \<Rightarrow> exn + game" where
  "load_top_scores g =
     try_catch
       (bind_exn (getItem (localStorage g) dinoScores) (\<lambda>raw.
        bind_exn (parse_or_empty raw) (\<lambda>arr.
        bind_exn (slice10 arr) (\<lambda>top.
          Inr (g\<lparr>topScores := top\<rparr>)))))
       g"

text \<open>\<^verbatim>\<open>localStorage.setItem\<close>\<close>

definition setItem :: "storage \<Rightarrow> (storage \<Rightarrow> storage) \<Rightarrow> exn + storage" where
  "setItem sto upd = (if writable sto then Inr (upd sto) else Inl StorageError)"

text \<open>
  The score-list part of \<^verbatim>\<open>endGame\<close> (lines 133-140): the new list is written to the
  storage and to \<^verbatim>\<open>topScores\<close>.
\<close>

definition record_score :: "int \<Rightarrow> game \<Rightarrow> exn + game" where
  "record_score s g =
     try_catch
       (bind_exn (getItem (localStorage g) dinoScores) (\<lambda>raw.
        bind_exn (parse_or_empty raw) (\<lambda>arr.
        bind_exn (push arr s) (\<lambda>pushed.
        let sorted = sort_desc pushed in
        bind_exn (setItem (localStorage g)
                    (\<lambda>sto. sto\<lparr>dinoScores := Some (JsonValue (JNumArr (take 10 sorted)))\<rparr>)) (\<lambda>sto.
          Inr (g\<lparr>localStorage := sto, topScores := JNumArr (take 10 sorted)\<rparr>))))))
       g"

text \<open>
  \<^verbatim>\<open>endGame\<close> (lines 123-141). Its argument is the \<^verbatim>\<open>score\<close> the callback closed over.
\<close>

definition save_high_score :: "int \<Rightarrow> game \<Rightarrow> game" where
  "save_high_score s g =
     (let next = js_max (highScore g) (Num (of_int s));
          sto = (case try_catch (setItem (localStorage g) (\<lambda>sto. sto\<lparr>dinoHighScore := Some (HsNumber next)\<rparr>))
                        (localStorage g) of
                   Inr sto \<Rightarrow> sto | Inl _ \<Rightarrow> localStorage g)
      in g\<lparr>highScore := next, localStorage := sto\<rparr>)"

definition endGame :: "int \<Rightarrow> game \<Rightarrow> game" where
  "endGame s g =
     (let g1 = g\<lparr>isGameOver := True, isRunning := False\<rparr>;
          g2 = (case record_score s g1 of Inr g' \<Rightarrow> g' | Inl _ \<Rightarrow> g1)
      in save_high_score s g2)"

section \<open>Session control and input\<close>

text \<open>
  \<^verbatim>\<open>resetGame\<close> (lines 102-121). The argument is \<^verbatim>\<open>canvasRef.current\<close>: nothing when the
  canvas is not mounted, else the canvas height.
\<close>

definition resetGame :: "nat option \<Rightarrow> game \<Rightarrow> game" where
  "resetGame canvas g =
     (case canvas of
        None \<Rightarrow> g
      | Some height \<Rightarrow>
          g\<lparr> isGameOver := False, score := 0, speed := 260,
             obstacles := [], spawnTimer := 0, clouds := [], cloudSpawnTimer := 0,
             lastTime := None, isOnGround := True, playerVy := 0,
             playerY := of_int (int (height div 2) - PLAYER_HEIGHT),
             isRunning := True \<rparr>)"

text \<open>\<^verbatim>\<open>jump\<close> (lines 143-148).\<close>

definition jump :: "game \<Rightarrow> game" where
  "jump g =
     (if isOnGround g \<and> isRunning g \<and> \<not> isGameOver g
      then g\<lparr>isOnGround := False, playerVy := jumpVelocity\<rparr>
      else g)"

text \<open>The two input handlers (lines 151-169).\<close>

definition handlePointer :: "nat option \<Rightarrow> game \<Rightarrow> game" where
  "handlePointer canvas g =
     (if showMenu g \<or> showLeaderboard g then g
      else if \<not> isRunning g \<and> isGameOver g then resetGame canvas g
      else jump g)"

definition handleKeyDown :: "string \<Rightarrow> nat option \<Rightarrow> game \<Rightarrow> game" where
  "handleKeyDown code canvas g =
     (if showMenu g \<or> showLeaderboard g then g
      else if code = ''Space'' \<or> code = ''ArrowUp'' then
        (if \<not> isRunning g \<and> isGameOver g then resetGame canvas g else jump g)
      else g)"

section \<open>The simulation tick\<close>

text \<open>
  What one call of \<^verbatim>\<open>step\<close> reads from outside the component: the timestamp, the canvas
  size, the images, and the values of the calls of \<^verbatim>\<open>Math.random\<close> in the order the
  code makes them.
\<close>

record tick_input =
  time :: real
  canvas_width :: nat
  canvas_height :: nat
  images :: assets
  rnd_tree :: real
  rnd_height :: real
  rnd_spawn :: real
  rnd_cloud_scale :: real
  rnd_cloud_y :: real
  rnd_cloud_speed :: real
  rnd_cloud_timer :: real

text \<open>Lines 210-212. \<^verbatim>\<open>!lastTimeRef.current\<close> holds for \<^verbatim>\<open>null\<close> and for \<open>0\<close>.\<close>

definition tick_dt :: "tick_input \<Rightarrow> game \<Rightarrow> real" where
  "tick_dt i g =
     (let last = (case lastTime g of
                    None \<Rightarrow> time i
                  | Some t \<Rightarrow> if t = 0 then time i else t)
      in min 0.032 ((time i - last) / 1000))"

text \<open>Lines 214-217: score and scroll speed.\<close>

definition advance_score_speed :: "real \<Rightarrow> tick_input \<Rightarrow> game \<Rightarrow> game" where
  "advance_score_speed dt i g =
     g\<lparr> lastTime := Some (time i),
        score := (if isRunning g then score g + \<lfloor>dt * 100\<rfloor> else score g),
        speed := min 560 (speed g + dt * 8) \<rparr>"

definition groundY :: "nat \<Rightarrow> int" where
  "groundY height = int (height div 2) - PLAYER_HEIGHT"

text \<open>Lines 219-228: gravity, then the clamp at the ground line.\<close>

definition integrate_player :: "real \<Rightarrow> tick_input \<Rightarrow> game \<Rightarrow> game" where
  "integrate_player dt i g =
     (let vy = playerVy g + gravity * dt;
          y = playerY g + vy * dt;
          gy = of_int (groundY (canvas_height i))
      in if y \<ge> gy
         then g\<lparr>playerY := gy, playerVy := 0, isOnGround := True\<rparr>
         else g\<lparr>playerY := y, playerVy := vy\<rparr>)"

text \<open>
  Lines 230-243: the obstacle spawn countdown. The width of an obstacle with an image is
  the floor of the exact product, with the same proviso as for the character rectangle.
\<close>

definition spawn_obstacle :: "real \<Rightarrow> tick_input \<Rightarrow> game \<Rightarrow> game" where
  "spawn_obstacle dt i g =
     (let t = spawnTimer g - dt in
      if t \<le> 0 then
        (let img = (if rnd_tree i < 0.5 then img_tree1 (images i) else img_tree2 (images i));
             baseH = 48 + \<lfloor>rnd_height i * 28\<rfloor>;
             ob = (case img of
                     Some im \<Rightarrow>
                       if usable img then
                         (let scale = (of_int baseH / of_nat (img_height im) :: real);
                              w = max 10 \<lfloor>of_nat (img_width im) * scale\<rfloor>
                          in \<lparr>ob_x = of_nat (canvas_width i) + 10, ob_width = w,
                              ob_height = baseH, ob_img = img\<rparr>)
                       else \<lparr>ob_x = of_nat (canvas_width i) + 10, ob_width = 18,
                             ob_height = baseH, ob_img = None\<rparr>
                   | None \<Rightarrow> \<lparr>ob_x = of_nat (canvas_width i) + 10, ob_width = 18,
                               ob_height = baseH, ob_img = None\<rparr>)
         in g\<lparr>obstacles := obstacles g @ [ob], spawnTimer := 0.9 + rnd_spawn i * 0.9\<rparr>)
      else g\<lparr>spawnTimer := t\<rparr>)"

text \<open>Lines 245-250: scroll the obstacles and drop those past the left edge.\<close>

definition move_obstacles :: "real \<Rightarrow> game \<Rightarrow> game" where
  "move_obstacles dt g =
     g\<lparr>obstacles :=
         filter (\<lambda>ob. ob_x ob + of_int (ob_width ob) > 0)
           (map (\<lambda>ob. ob\<lparr>ob_x := ob_x ob - speed g * dt\<rparr>) (obstacles g))\<rparr>"

text \<open>Lines 253-264: clouds.\<close>

definition update_clouds :: "real \<Rightarrow> tick_input \<Rightarrow> game \<Rightarrow> game" where
  "update_clouds dt i g =
     (let t = cloudSpawnTimer g - dt;
          g1 = (if t \<le> 0 then
                  (let scale = 0.6 + rnd_cloud_scale i * 0.6;
                       y = 10 + rnd_cloud_y i * max 10 (of_nat (canvas_height i) * 0.25);
                       sp = max 20 (speed g * 0.25 * (0.7 + rnd_cloud_speed i * 0.6))
                   in g\<lparr>clouds := clouds g @
                          [\<lparr>cl_x = of_nat (canvas_width i) + 20, cl_y = y, cl_speed = sp,
                            cl_scale = scale\<rparr>],
                        cloudSpawnTimer := 2 + rnd_cloud_timer i * 3\<rparr>)
                else g\<lparr>cloudSpawnTimer := t\<rparr>)
      in g1\<lparr>clouds :=
             filter (\<lambda>c. cl_x c > - 200)
               (map (\<lambda>c. c\<lparr>cl_x := cl_x c - cl_speed c * dt\<rparr>) (clouds g1))\<rparr>)"

subsection \<open>Hitboxes\<close>

record rect =
  rx :: real
  ry :: real
  rw :: real
  rh :: real

text \<open>Line 266.\<close>

definition player_px :: "tick_input \<Rightarrow> int" where
  "player_px i = \<lfloor>(of_nat (canvas_width i) - of_int PLAYER_WIDTH) / (2::real)\<rfloor>"

text \<open>
  Lines 272-283: the rectangle the character is drawn in. With a usable image it is the
  frame of the sprite sheet fitted into the player box; a frame of width 0 makes
  \<^verbatim>\<open>pw / swb\<close> infinite, and \<^verbatim>\<open>Math.min\<close> then returns the other quotient. The floors
  are those of the exact products: where the product of doubles falls just below an
  integer that the exact product reaches (a 220 x 55 sheet gives 55 * (56 / 55)), the
  code's rectangle is one pixel smaller than the one here.
\<close>

definition character_rect :: "tick_input \<Rightarrow> game \<Rightarrow> rect" where
  "character_rect i g =
     (let px = player_px i; py = playerY g; pw = PLAYER_WIDTH; ph = PLAYER_HEIGHT in
      case img_character (images i) of
        None \<Rightarrow> \<lparr>rx = of_int px, ry = py, rw = of_int pw, rh = of_int ph\<rparr>
      | Some im \<Rightarrow>
          if usable (Some im) then
            (let swb = img_width im div RUN_FRAMES;
                 shb = img_height im;
                 scaleB = (if swb = 0 then of_int ph / of_nat shb
                           else min (of_int pw / of_nat swb) (of_int ph / of_nat shb));
                 cdw = \<lfloor>of_nat swb * scaleB :: real\<rfloor>;
                 cdh = \<lfloor>of_nat shb * scaleB :: real\<rfloor>;
                 cdx = \<lfloor>of_int px + (of_int pw - of_int cdw) / (2::real)\<rfloor>;
                 cdy = \<lfloor>py + (of_int ph - of_int cdh)\<rfloor>
             in \<lparr>rx = of_int cdx, ry = of_int cdy, rw = of_int cdw, rh = of_int cdh\<rparr>)
          else \<lparr>rx = of_int px, ry = py, rw = of_int pw, rh = of_int ph\<rparr>)"

text \<open>
  Lines 285-290 and 300-305: the hitbox is the rectangle moved in by a fraction of its
  width and height on each side, at least one pixel wide and high.
\<close>

definition shrink :: "real \<Rightarrow> real \<Rightarrow> rect \<Rightarrow> rect" where
  "shrink fx fy r =
     (let shrinkX = of_int \<lfloor>rw r * fx\<rfloor>;
          shrinkY = of_int \<lfloor>rh r * fy\<rfloor>
      in \<lparr>rx = rx r + shrinkX, ry = ry r + shrinkY,
          rw = max 1 (rw r - shrinkX * 2), rh = max 1 (rh r - shrinkY * 2)\<rparr>)"

definition player_hitbox :: "tick_input \<Rightarrow> game \<Rightarrow> rect" where
  "player_hitbox i g = shrink 0.12 0.08 (character_rect i g)"

text \<open>Lines 294-298: the rectangle of an obstacle, standing on the ground line.\<close>

definition obstacle_rect :: "tick_input \<Rightarrow> obstacle \<Rightarrow> rect" where
  "obstacle_rect i ob =
     \<lparr>rx = ob_x ob, ry = of_int (int (canvas_height i div 2) - ob_height ob),
      rw = of_int (ob_width ob), rh = of_int (ob_height ob)\<rparr>"

definition obstacle_hitbox :: "tick_input \<Rightarrow> obstacle \<Rightarrow> rect" where
  "obstacle_hitbox i ob = shrink 0.15 0.05 (obstacle_rect i ob)"

text \<open>Line 307.\<close>

definition noOverlap :: "rect \<Rightarrow> rect \<Rightarrow> bool" where
  "noOverlap c ob =
     (rx c + rw c \<le> rx ob \<or> rx c \<ge> rx ob + rw ob \<or>
      ry c + rh c \<le> ry ob \<or> ry c \<ge> ry ob + rh ob)"

text \<open>Lines 293-312: the loop over the obstacles stops at the first hit.\<close>

fun collides :: "rect \<Rightarrow> tick_input \<Rightarrow> obstacle list \<Rightarrow> bool" where
  "collides c i [] = False"
| "collides c i (ob # obs) =
     (if \<not> noOverlap c (obstacle_hitbox i ob) then True else collides c i obs)"

subsection \<open>One tick\<close>

text \<open>
  How a call of \<^verbatim>\<open>step\<close> ends: it called \<^verbatim>\<open>endGame\<close> and returned at once (nothing drawn,
  nothing scheduled); or it drew the frame and asked for the next animation frame; or
  it drew the frame and asked for nothing.
\<close>

datatype tick_end = GameEnded | Rescheduled | NotRescheduled

text \<open>The state when the collision test is reached (lines 210-290).\<close>

definition simulate :: "tick_input \<Rightarrow> game \<Rightarrow> game" where
  "simulate i g =
     (let dt = tick_dt i g in
      update_clouds dt i
        (move_obstacles dt
          (spawn_obstacle dt i
            (integrate_player dt i
              (advance_score_speed dt i g)))))"

text \<open>
  \<^verbatim>\<open>step\<close> (lines 209-404). The callback reads \<^verbatim>\<open>isRunning\<close> and \<^verbatim>\<open>score\<close> as they were
  when the effect that created it ran, which is the state the tick starts from: this is
  the callback of the latest render. A callback left over from an earlier render, which
  would hand an earlier score to \<^verbatim>\<open>endGame\<close>, is not modelled.
\<close>

definition step :: "tick_input \<Rightarrow> game \<Rightarrow> game \<times> tick_end" where
  "step i g =
     (let g1 = simulate i g in
      if isRunning g \<and> collides (player_hitbox i g1) i (obstacles g1)
      then (endGame (score g) g1, GameEnded)
      else (g1, if isRunning g then Rescheduled else NotRescheduled))"

text \<open>
  The effect that starts the loop (lines 203-208 and 406): whether it requests the first
  animation frame. \<open>canvas_ok\<close> says that the canvas and its 2D context exist.
\<close>

definition loop_effect_starts :: "bool \<Rightarrow> game \<Rightarrow> bool" where
  "loop_effect_starts canvas_ok g =
     (if \<not> isRunning g \<and> \<not> showMenu g then False
      else if \<not> canvas_ok then False
      else True)"

text \<open>
  A run of one loop: the ticks follow one another as long as each asks for the next.
  The result lists how each executed tick ended. The further loops that the effect
  starts when it runs again after a change of the score, while the frame requested at
  line 403 is still pending, are not part of the model.
\<close>

fun run_ticks :: "tick_input list \<Rightarrow> game \<Rightarrow> game \<times> tick_end list" where
  "run_ticks [] g = (g, [])"
| "run_ticks (i # rest) g =
     (case step i g of
        (g', Rescheduled) \<Rightarrow> (case run_ticks rest g' of (g'', es) \<Rightarrow> (g'', Rescheduled # es))
      | (g', e) \<Rightarrow> (g', [e]))"

section \<open>Concrete inputs\<close>

text \<open>No image has been assigned yet; a storage that works and holds nothing.\<close>

definition no_images :: assets where
  "no_images = \<lparr>img_ground = None, img_cloud = None, img_tree1 = None,
                  img_tree2 = None, img_character = None\<rparr>"

definition empty_storage :: storage where
  "empty_storage = \<lparr>readable = True, writable = True, dinoHighScore = None, dinoScores = None\<rparr>"

text \<open>A tick at timestamp \<open>t\<close> on a 2160 x 3840 canvas with no image, every random draw 0.\<close>

definition tick_at :: "real \<Rightarrow> tick_input" where
  "tick_at t = \<lparr>time = t, canvas_width = 2160, canvas_height = 3840, images = no_images,
     rnd_tree = 0, rnd_height = 0, rnd_spawn = 0, rnd_cloud_scale = 0, rnd_cloud_y = 0,
     rnd_cloud_speed = 0, rnd_cloud_timer = 0\<rparr>"

text \<open>The component as mounted, and a session just started on a canvas of height 3840.\<close>

definition menu_game :: game where
  "menu_game = initial_game empty_storage"

definition fresh_session :: game where
  "fresh_session = resetGame (Some 3840) (menu_game\<lparr>showMenu := False\<rparr>)"

text \<open>
  A storage holding texts the game never wrote: under \<^verbatim>\<open>dinoHighScore\<close> a text that is
  not a numeric literal (such as \<^verbatim>\<open>abc\<close>), under \<^verbatim>\<open>dinoScores\<close> the JSON string
  \<^verbatim>\<open>"none"\<close>.
\<close>

definition corrupt_storage :: storage where
  "corrupt_storage = \<lparr>readable = True, writable = True,
     dinoHighScore = Some (HsNumber NaN), dinoScores = Some (JsonValue (JStr ''none''))\<rparr>"

text \<open>
  A storage holding a high score of 120 and a list of twelve scores, more than the game
  itself ever writes.
\<close>

definition long_storage :: storage where
  "long_storage = \<lparr>readable = True, writable = True,
     dinoHighScore = Some (HsNumber (Num 120)),
     dinoScores = Some (JsonValue (JNumArr [120, 110, 100, 90, 80, 70, 60, 50, 40, 30, 20, 10]))\<rparr>"

text \<open>A storage whose every access throws, with an unparseable score list behind it.\<close>

definition broken_storage :: storage where
  "broken_storage = \<lparr>readable = False, writable = False,
     dinoHighScore = None, dinoScores = Some JsonMalformed\<rparr>"

text \<open>The obstacle spawned on the 2160 x 3840 canvas when the tree image is not usable.\<close>

definition plain_obstacle :: obstacle where
  "plain_obstacle = \<lparr>ob_x = 2170, ob_width = 18, ob_height = 48, ob_img = None\<rparr>"

text \<open>
  A session in which the previous tick came at timestamp 1000, and the same session with
  an obstacle standing where the player is.
\<close>

definition running_session :: game where
  "running_session = fresh_session\<lparr>lastTime := Some 1000\<rparr>"

definition colliding_session :: game where
  "colliding_session =
     fresh_session\<lparr>obstacles := [plain_obstacle\<lparr>ob_x := 1060\<rparr>], spawnTimer := 1\<rparr>"

text \<open>\<open>n\<close> ticks on that canvas, 20 milliseconds apart, the first 20 milliseconds after \<open>t\<close>.\<close>

fun ticks_from :: "real \<Rightarrow> nat \<Rightarrow> tick_input list" where
  "ticks_from t 0 = []"
| "ticks_from t (Suc n) = tick_at (t + 20) # ticks_from (t + 20) n"

text \<open>Several games end one after the other, with the scores of the list.\<close>

fun end_games :: "int list \<Rightarrow> game \<Rightarrow> game" where
  "end_games [] g = g"
| "end_games (s # ss) g = end_games ss (endGame s g)"

text \<open>Putting one value into a descending list, used to reason about the sorting.\<close>

fun insert_desc :: "int \<Rightarrow> int list \<Rightarrow> int list" where
  "insert_desc s [] = [s]"
| "insert_desc s (y # ys) = (if s \<le> y then y # insert_desc s ys else s # y # ys)"

section \<open>Notions of the specification\<close>

text \<open>
  The specification's collision test, in its words: the projections of the two
  rectangles overlap strictly on both axes. The projection of a rectangle on an axis is
  the open interval between its two edges.
\<close>

definition overlap_strictly :: "rect \<Rightarrow> rect \<Rightarrow> bool" where
  "overlap_strictly a b =
     (max (rx a) (rx b) < min (rx a + rw a) (rx b + rw b) \<and>
      max (ry a) (ry b) < min (ry a + rh a) (ry b + rh b))"

text \<open>One rectangle lies entirely to the left or entirely to the right of the other.\<close>

definition beside :: "rect \<Rightarrow> rect \<Rightarrow> bool" where
  "beside a b = (rx a + rw a \<le> rx b \<or> rx b + rw b \<le> rx a)"

text \<open>Every tick of the list comes \<open>d\<close> milliseconds after the one before, the first after \<open>t\<close>.\<close>

fun paced :: "real \<Rightarrow> real \<Rightarrow> tick_input list \<Rightarrow> bool" where
  "paced d t [] = True"
| "paced d t (i # rest) = (time i = t + d \<and> paced d (time i) rest)"

section \<open>Frame lemmas: what each phase of a tick leaves alone\<close>

lemma advance_score_speed_fields:
  "score (advance_score_speed dt i g) = (if isRunning g then score g + \<lfloor>dt * 100\<rfloor> else score g)"
  "speed (advance_score_speed dt i g) = min 560 (speed g + dt * 8)"
  "lastTime (advance_score_speed dt i g) = Some (time i)"
  "isRunning (advance_score_speed dt i g) = isRunning g"
  "isGameOver (advance_score_speed dt i g) = isGameOver g"
  "playerY (advance_score_speed dt i g) = playerY g"
  "playerVy (advance_score_speed dt i g) = playerVy g"
  "isOnGround (advance_score_speed dt i g) = isOnGround g"
  "obstacles (advance_score_speed dt i g) = obstacles g"
  by (simp_all add: advance_score_speed_def)

lemma integrate_player_fields:
  "score (integrate_player dt i g) = score g"
  "speed (integrate_player dt i g) = speed g"
  "lastTime (integrate_player dt i g) = lastTime g"
  "isRunning (integrate_player dt i g) = isRunning g"
  "isGameOver (integrate_player dt i g) = isGameOver g"
  "obstacles (integrate_player dt i g) = obstacles g"
  by (simp_all add: integrate_player_def Let_def)

lemma spawn_obstacle_fields:
  "score (spawn_obstacle dt i g) = score g"
  "speed (spawn_obstacle dt i g) = speed g"
  "lastTime (spawn_obstacle dt i g) = lastTime g"
  "isRunning (spawn_obstacle dt i g) = isRunning g"
  "isGameOver (spawn_obstacle dt i g) = isGameOver g"
  "playerY (spawn_obstacle dt i g) = playerY g"
  "playerVy (spawn_obstacle dt i g) = playerVy g"
  "isOnGround (spawn_obstacle dt i g) = isOnGround g"
  by (simp_all add: spawn_obstacle_def Let_def)

lemma move_obstacles_fields:
  "score (move_obstacles dt g) = score g"
  "speed (move_obstacles dt g) = speed g"
  "lastTime (move_obstacles dt g) = lastTime g"
  "isRunning (move_obstacles dt g) = isRunning g"
  "isGameOver (move_obstacles dt g) = isGameOver g"
  "playerY (move_obstacles dt g) = playerY g"
  "playerVy (move_obstacles dt g) = playerVy g"
  "isOnGround (move_obstacles dt g) = isOnGround g"
  by (simp_all add: move_obstacles_def)

lemma update_clouds_fields:
  "score (update_clouds dt i g) = score g"
  "speed (update_clouds dt i g) = speed g"
  "lastTime (update_clouds dt i g) = lastTime g"
  "isRunning (update_clouds dt i g) = isRunning g"
  "isGameOver (update_clouds dt i g) = isGameOver g"
  "playerY (update_clouds dt i g) = playerY g"
  "playerVy (update_clouds dt i g) = playerVy g"
  "isOnGround (update_clouds dt i g) = isOnGround g"
  "obstacles (update_clouds dt i g) = obstacles g"
  by (simp_all add: update_clouds_def Let_def)

lemmas phase_fields =
  advance_score_speed_fields integrate_player_fields spawn_obstacle_fields
  move_obstacles_fields update_clouds_fields

lemma simulate_fields:
  "score (simulate i g) = (if isRunning g then score g + \<lfloor>tick_dt i g * 100\<rfloor> else score g)"
  "speed (simulate i g) = min 560 (speed g + tick_dt i g * 8)"
  "lastTime (simulate i g) = Some (time i)"
  "isRunning (simulate i g) = isRunning g"
  "isGameOver (simulate i g) = isGameOver g"
  unfolding simulate_def Let_def by (simp_all only: phase_fields)

lemma simulate_player:
  "playerY (simulate i g) = playerY (integrate_player (tick_dt i g) i g)"
  "playerVy (simulate i g) = playerVy (integrate_player (tick_dt i g) i g)"
  "isOnGround (simulate i g) = isOnGround (integrate_player (tick_dt i g) i g)"
  unfolding simulate_def Let_def
  by (simp_all only: phase_fields) (simp_all add: integrate_player_def advance_score_speed_def Let_def)

text \<open>\<^verbatim>\<open>endGame\<close> touches the flags, the score board and the storage only.\<close>

lemma record_score_shape:
  "\<exists>sto top. record_score s g = Inr (g\<lparr>localStorage := sto, topScores := top\<rparr>)"
proof (cases "record_score s g = Inr g")
  case True
  have "g = g\<lparr>localStorage := localStorage g, topScores := topScores g\<rparr>" by simp
  with True show ?thesis by metis
next
  case False
  then show ?thesis
    by (auto simp: record_score_def try_catch_def bind_exn_def getItem_def setItem_def Let_def
             split: sum.splits if_splits)
qed

lemma endGame_fields:
  "isGameOver (endGame s g) = True"
  "isRunning (endGame s g) = False"
  "score (endGame s g) = score g"
  "speed (endGame s g) = speed g"
  "lastTime (endGame s g) = lastTime g"
  "playerY (endGame s g) = playerY g"
  "playerVy (endGame s g) = playerVy g"
  "isOnGround (endGame s g) = isOnGround g"
  "obstacles (endGame s g) = obstacles g"
proof -
  obtain sto top where
    r: "record_score s (g\<lparr>isGameOver := True, isRunning := False\<rparr>) =
          Inr (g\<lparr>isGameOver := True, isRunning := False, localStorage := sto, topScores := top\<rparr>)"
    using record_score_shape [of s "g\<lparr>isGameOver := True, isRunning := False\<rparr>"] by auto
  show "isGameOver (endGame s g) = True"
    "isRunning (endGame s g) = False"
    "score (endGame s g) = score g"
    "speed (endGame s g) = speed g"
    "lastTime (endGame s g) = lastTime g"
    "playerY (endGame s g) = playerY g"
    "playerVy (endGame s g) = playerVy g"
    "isOnGround (endGame s g) = isOnGround g"
    "obstacles (endGame s g) = obstacles g"
    by (simp_all add: endGame_def r save_high_score_def Let_def)
qed

lemma step_cases:
  "step i g = (endGame (score g) (simulate i g), GameEnded) \<or>
   step i g = (simulate i g, if isRunning g then Rescheduled else NotRescheduled)"
  by (simp add: step_def Let_def)

lemma step_fields:
  "score (fst (step i g)) = score (simulate i g)"
  "speed (fst (step i g)) = speed (simulate i g)"
  "lastTime (fst (step i g)) = lastTime (simulate i g)"
  "playerY (fst (step i g)) = playerY (simulate i g)"
  "playerVy (fst (step i g)) = playerVy (simulate i g)"
  "isOnGround (fst (step i g)) = isOnGround (simulate i g)"
  "obstacles (fst (step i g)) = obstacles (simulate i g)"
  using step_cases [of i g] by (auto simp: endGame_fields)

section \<open>Facts about the concrete inputs\<close>

lemma fresh_session_flags:
  "isOnGround fresh_session" "isRunning fresh_session" "\<not> isGameOver fresh_session"
  "\<not> showMenu fresh_session" "\<not> showLeaderboard fresh_session"
  by (simp_all add: fresh_session_def resetGame_def menu_game_def initial_game_def)

lemma fresh_session_player:
  "playerY fresh_session = 1856" "playerVy fresh_session = 0" "lastTime fresh_session = None"
  "speed fresh_session = 260" "score fresh_session = 0" "obstacles fresh_session = []"
  by (simp_all add: fresh_session_def resetGame_def menu_game_def initial_game_def PLAYER_HEIGHT_def)

lemma tick_at_fields:
  "time (tick_at t) = t" "canvas_width (tick_at t) = 2160" "canvas_height (tick_at t) = 3840"
  "img_character (images (tick_at t)) = None"
  "img_tree1 (images (tick_at t)) = None" "img_tree2 (images (tick_at t)) = None"
  "rnd_tree (tick_at t) = 0" "rnd_height (tick_at t) = 0" "rnd_spawn (tick_at t) = 0"
  by (simp_all add: tick_at_def no_images_def)

lemma tick_dt_first: "lastTime g = None \<Longrightarrow> tick_dt i g = 0"
  by (simp add: tick_dt_def)

section \<open>Jumping\<close>

text \<open>
  C9. A jump changes something only if the player is on the ground, the session is
  running and the game is not over. In particular a jump while airborne leaves the
  vertical velocity, the position and the grounded flag as they were, and so does either
  input handler while the session runs.
\<close>

theorem jump_only_when_grounded_running:
  "(\<not> (isOnGround g \<and> isRunning g \<and> \<not> isGameOver g) \<longrightarrow> jump g = g) \<and>
   (\<not> isOnGround g \<longrightarrow>
      playerVy (jump g) = playerVy g \<and> playerY (jump g) = playerY g \<and>
      isOnGround (jump g) = isOnGround g \<and>
      (isRunning g \<longrightarrow> handlePointer canvas g = g \<and> handleKeyDown code canvas g = g))"
  by (auto simp: jump_def handlePointer_def handleKeyDown_def)

theorem jump_only_when_grounded_running_witness:
  "\<not> isOnGround (jump fresh_session) \<and> isRunning (jump fresh_session) \<and>
   jump (jump fresh_session) = jump fresh_session \<and>
   playerVy (jump (jump fresh_session)) = - 560 \<and>
   handlePointer (Some 3840) (jump fresh_session) = jump fresh_session"
  using jump_only_when_grounded_running [of "jump fresh_session" "Some 3840" "''Space''"]
  by (simp add: jump_def fresh_session_flags jumpVelocity_def)

text \<open>
  C10. A jump with the player on the ground, the session running and the game not over
  sets the vertical velocity to -560 and clears the grounded flag; every other part of
  the state is as before.
\<close>

theorem jump_sets_velocity:
  "isOnGround g \<Longrightarrow> isRunning g \<Longrightarrow> \<not> isGameOver g \<Longrightarrow>
   jump g = g\<lparr>isOnGround := False, playerVy := - 560\<rparr>"
  by (simp add: jump_def jumpVelocity_def)

theorem jump_sets_velocity_witness:
  "isOnGround fresh_session \<and> isRunning fresh_session \<and> \<not> isGameOver fresh_session \<and>
   jump fresh_session = fresh_session\<lparr>isOnGround := False, playerVy := - 560\<rparr>"
  using jump_sets_velocity [of fresh_session] by (simp add: fresh_session_flags)

section \<open>Gravity and the ground line\<close>

lemma integrate_player_clamp:
  "playerY (integrate_player dt i g) \<le> of_int (groundY (canvas_height i))"
  "playerY g + (playerVy g + 1350 * dt) * dt \<ge> of_int (groundY (canvas_height i)) \<Longrightarrow>
     playerY (integrate_player dt i g) = of_int (groundY (canvas_height i)) \<and>
     playerVy (integrate_player dt i g) = 0 \<and> isOnGround (integrate_player dt i g)"
  by (simp_all add: integrate_player_def Let_def gravity_def)

text \<open>
  C6. After a tick the player's vertical position is at most the ground line
  \<open>floor(canvasHeight / 2) - 64\<close>; and when the position reached by the integration
  step is at or past that line, the tick leaves the player on the line with vertical
  velocity 0 and the grounded flag set.
\<close>

theorem player_never_below_ground:
  "playerY (fst (step i g)) \<le> of_int (int (canvas_height i div 2) - 64) \<and>
   (playerY g + (playerVy g + 1350 * tick_dt i g) * tick_dt i g
       \<ge> of_int (int (canvas_height i div 2) - 64) \<longrightarrow>
      playerY (fst (step i g)) = of_int (int (canvas_height i div 2) - 64) \<and>
      playerVy (fst (step i g)) = 0 \<and> isOnGround (fst (step i g)))"
  using integrate_player_clamp [where dt = "tick_dt i g" and i = i and g = g]
  by (simp add: step_fields simulate_player groundY_def PLAYER_HEIGHT_def)

theorem player_never_below_ground_witness:
  "playerY fresh_session + (playerVy fresh_session + 1350 * tick_dt (tick_at 1000) fresh_session)
       * tick_dt (tick_at 1000) fresh_session \<ge> of_int (int (canvas_height (tick_at 1000) div 2) - 64) \<and>
   playerY (fst (step (tick_at 1000) fresh_session)) = 1856 \<and>
   playerVy (fst (step (tick_at 1000) fresh_session)) = 0 \<and>
   isOnGround (fst (step (tick_at 1000) fresh_session))"
  using player_never_below_ground [of "tick_at 1000" fresh_session]
  by (simp add: tick_dt_first fresh_session_player tick_at_fields)

section \<open>Re-scheduling the loop\<close>

text \<open>
  C7, as stated, fails: with the menu open and no session running, the effect requests a
  first frame, and the tick that then runs does not request another.
\<close>

theorem menu_tick_not_rescheduled:
  "showMenu menu_game \<and> \<not> isRunning menu_game \<and> loop_effect_starts True menu_game \<and>
   snd (step (tick_at 1000) menu_game) = NotRescheduled"
  by (simp add: step_def Let_def menu_game_def initial_game_def loop_effect_starts_def)

text \<open>
  C7, amended. A tick requests the next frame exactly when the session is running and
  the tick did not end in a collision. With the menu open and no session running the
  effect still starts the loop, and the loop is then over after one tick.
\<close>

theorem reschedule_only_while_running:
  "(snd (step i g) = Rescheduled \<longleftrightarrow>
      isRunning g \<and> \<not> collides (player_hitbox i (simulate i g)) i (obstacles (simulate i g))) \<and>
   (showMenu g \<and> \<not> isRunning g \<longrightarrow>
      loop_effect_starts True g \<and> run_ticks (i # rest) g = (simulate i g, [NotRescheduled]))"
  by (simp add: step_def Let_def loop_effect_starts_def)

theorem reschedule_only_while_running_witness:
  "showMenu menu_game \<and> \<not> isRunning menu_game \<and> loop_effect_starts True menu_game \<and>
   run_ticks [tick_at 1000, tick_at 1020] menu_game = (simulate (tick_at 1000) menu_game, [NotRescheduled])"
  using reschedule_only_while_running [of "tick_at 1000" menu_game "[tick_at 1020]"]
  by (simp add: menu_game_def initial_game_def)

section \<open>Hitboxes without an image\<close>

lemma floor_facts:
  "\<lfloor>(56::real) * 0.12\<rfloor> = 6" "\<lfloor>(64::real) * 0.08\<rfloor> = 5"
  "\<lfloor>(18::real) * 0.15\<rfloor> = 2" "\<lfloor>(48::real) * 0.05\<rfloor> = 2"
  by (simp_all add: floor_eq_iff)

lemma character_rect_fallback:
  "\<not> usable (img_character (images i)) \<Longrightarrow>
   character_rect i g = \<lparr>rx = of_int (player_px i), ry = playerY g, rw = 56, rh = 64\<rparr>"
  by (cases "img_character (images i)")
     (auto simp: character_rect_def Let_def PLAYER_WIDTH_def PLAYER_HEIGHT_def)

lemma player_hitbox_fallback:
  "\<not> usable (img_character (images i)) \<Longrightarrow>
   player_hitbox i g = \<lparr>rx = of_int (player_px i) + 6, ry = playerY g + 5, rw = 44, rh = 54\<rparr>"
  by (simp add: player_hitbox_def character_rect_fallback shrink_def Let_def floor_facts)

lemma player_px_tick_at: "player_px (tick_at t) = 1052"
  by (simp add: player_px_def tick_at_fields PLAYER_WIDTH_def)

text \<open>
  C1, as stated, fails: with no character image the player's hitbox on the
  2160 x 3840 canvas is 44 x 54 at (1058, 1861), not the full 56 x 64 rectangle at
  (1052, 1856); and the hitbox of an obstacle without image is 14 x 44, not its full
  18 x 48 rectangle.
\<close>

theorem fallback_hitbox_is_inset:
  "\<not> usable (img_character (images (tick_at 1000))) \<and>
   player_hitbox (tick_at 1000) fresh_session = \<lparr>rx = 1058, ry = 1861, rw = 44, rh = 54\<rparr> \<and>
   player_hitbox (tick_at 1000) fresh_session \<noteq>
     \<lparr>rx = of_int (player_px (tick_at 1000)), ry = playerY fresh_session, rw = 56, rh = 64\<rparr> \<and>
   ob_img plain_obstacle = None \<and>
   obstacle_hitbox (tick_at 1000) plain_obstacle = \<lparr>rx = 2172, ry = 1874, rw = 14, rh = 44\<rparr> \<and>
   obstacle_hitbox (tick_at 1000) plain_obstacle \<noteq> obstacle_rect (tick_at 1000) plain_obstacle"
  by (simp add: player_hitbox_fallback tick_at_fields player_px_tick_at fresh_session_player
        obstacle_hitbox_def obstacle_rect_def shrink_def Let_def plain_obstacle_def floor_facts)

text \<open>
  C1, amended. Without a usable character image the rectangle of the player is the full
  one (x = px, y = py, width 56, height 64), and the hitbox is that rectangle moved in by
  6 pixels on the left and right and 5 at the top and bottom: 44 x 54 at (px + 6, py + 5).
  In every case the player's hitbox is the character rectangle moved in by the floor of
  12 percent of its width and 8 percent of its height, and the hitbox of an obstacle is
  its rectangle moved in by the floor of 15 percent of its width and 5 percent of its
  height, whether or not the obstacle has an image; at width 18 that is 2 pixels a side.
\<close>

theorem hitbox_inset_always:
  "(\<not> usable (img_character (images i)) \<longrightarrow>
      character_rect i g = \<lparr>rx = of_int (player_px i), ry = playerY g, rw = 56, rh = 64\<rparr> \<and>
      player_hitbox i g = \<lparr>rx = of_int (player_px i) + 6, ry = playerY g + 5, rw = 44, rh = 54\<rparr>) \<and>
   player_hitbox i g =
     \<lparr>rx = rx (character_rect i g) + of_int \<lfloor>rw (character_rect i g) * 0.12\<rfloor>,
      ry = ry (character_rect i g) + of_int \<lfloor>rh (character_rect i g) * 0.08\<rfloor>,
      rw = max 1 (rw (character_rect i g) - of_int \<lfloor>rw (character_rect i g) * 0.12\<rfloor> * 2),
      rh = max 1 (rh (character_rect i g) - of_int \<lfloor>rh (character_rect i g) * 0.08\<rfloor> * 2)\<rparr> \<and>
   obstacle_hitbox i ob =
     \<lparr>rx = ob_x ob + of_int \<lfloor>of_int (ob_width ob) * (0.15::real)\<rfloor>,
      ry = of_int (int (canvas_height i div 2) - ob_height ob)
             + of_int \<lfloor>of_int (ob_height ob) * (0.05::real)\<rfloor>,
      rw = max 1 (of_int (ob_width ob) - of_int \<lfloor>of_int (ob_width ob) * (0.15::real)\<rfloor> * 2),
      rh = max 1 (of_int (ob_height ob) - of_int \<lfloor>of_int (ob_height ob) * (0.05::real)\<rfloor> * 2)\<rparr> \<and>
   obstacle_hitbox i (ob\<lparr>ob_img := im\<rparr>) = obstacle_hitbox i ob \<and>
   (ob_width ob = 18 \<longrightarrow>
      rx (obstacle_hitbox i ob) = ob_x ob + 2 \<and> rw (obstacle_hitbox i ob) = 14)"
  by (simp add: player_hitbox_fallback character_rect_fallback player_hitbox_def
        obstacle_hitbox_def obstacle_rect_def shrink_def Let_def floor_facts)

theorem hitbox_inset_always_witness:
  "\<not> usable (img_character (images (tick_at 1000))) \<and> ob_width plain_obstacle = 18 \<and>
   player_hitbox (tick_at 1000) fresh_session = \<lparr>rx = 1058, ry = 1861, rw = 44, rh = 54\<rparr> \<and>
   rx (obstacle_hitbox (tick_at 1000) plain_obstacle) = 2172 \<and>
   rw (obstacle_hitbox (tick_at 1000) plain_obstacle) = 14"
  using hitbox_inset_always [of "tick_at 1000" fresh_session plain_obstacle None]
  by (simp add: tick_at_fields player_px_tick_at fresh_session_player plain_obstacle_def)

section \<open>Loading the score board\<close>

text \<open>
  C8, as stated, fails for stored data the game did not write: a high-score text that is
  not a number gives the high score \<open>NaN\<close>, and a score list stored as a JSON string
  is taken over as it is.
\<close>

theorem corrupt_storage_not_default:
  "load_high_score (initial_game corrupt_storage) =
     Inr ((initial_game corrupt_storage)\<lparr>highScore := NaN\<rparr>) \<and>
   highScore ((initial_game corrupt_storage)\<lparr>highScore := NaN\<rparr>) \<noteq> Num 0 \<and>
   load_top_scores (initial_game corrupt_storage) =
     Inr ((initial_game corrupt_storage)\<lparr>topScores := JStr ''none''\<rparr>) \<and>
   topScores ((initial_game corrupt_storage)\<lparr>topScores := JStr ''none''\<rparr>) \<noteq> JNumArr []"
  by (simp add: load_high_score_def load_top_scores_def try_catch_def bind_exn_def getItem_def
        initial_game_def corrupt_storage_def)

lemma load_never_throws:
  "\<exists>g'. load_high_score g = Inr g'" "\<exists>g'. load_top_scores g = Inr g'"
  by (simp_all add: load_high_score_def load_top_scores_def try_catch_def split: sum.splits)

lemma load_pass_through:
  "readable (localStorage g) \<Longrightarrow> dinoHighScore (localStorage g) = Some (HsNumber n) \<Longrightarrow>
     load_high_score g = Inr (g\<lparr>highScore := n\<rparr>)"
  "readable (localStorage g) \<Longrightarrow> dinoScores (localStorage g) = Some (JsonValue (JNumArr xs)) \<Longrightarrow>
     load_top_scores g = Inr (g\<lparr>topScores := JNumArr (take 10 xs)\<rparr>)"
  "readable (localStorage g) \<Longrightarrow> dinoScores (localStorage g) = Some (JsonValue (JStr s)) \<Longrightarrow>
     load_top_scores g = Inr (g\<lparr>topScores := JStr (take 10 s)\<rparr>)"
  by (simp_all add: load_high_score_def load_top_scores_def try_catch_def bind_exn_def getItem_def)

lemma load_unchanged:
  "\<not> readable (localStorage g) \<or> dinoHighScore (localStorage g) = None \<or>
     dinoHighScore (localStorage g) = Some HsEmpty \<Longrightarrow> load_high_score g = Inr g"
  "\<not> readable (localStorage g) \<or> dinoScores (localStorage g) = Some JsonMalformed \<or>
     dinoScores (localStorage g) = Some (JsonValue JNoSlice) \<Longrightarrow> load_top_scores g = Inr g"
  "readable (localStorage g) \<Longrightarrow>
     dinoScores (localStorage g) = None \<or> dinoScores (localStorage g) = Some JsonEmpty \<Longrightarrow>
     load_top_scores g = Inr (g\<lparr>topScores := JNumArr []\<rparr>)"
  by (auto simp: load_high_score_def load_top_scores_def try_catch_def bind_exn_def getItem_def)

text \<open>
  C8, amended. When reading the storage throws, when the key is missing or holds the
  empty text, and, for the score list, when the text is not JSON or is the JSON of
  something without a \<^verbatim>\<open>slice\<close> method, the mount effects leave the high score at 0
  and the list empty. Neither effect lets an exception out, whatever the storage holds.
  What a readable storage holds is not checked otherwise: a high-score text that is not
  empty makes the high score what \<^verbatim>\<open>Number\<close> gives for it, \<open>NaN\<close> and the infinities
  included; a stored array of integers becomes the list, cut to its first 10 entries; and
  a stored JSON string becomes the list as well, cut to its first 10 characters. In the
  remaining cases the state is left as it is (for a missing or empty score list, the
  list is set to the empty list).
\<close>

theorem load_defaults:
  "(\<not> readable sto \<longrightarrow>
      load_high_score (initial_game sto) = Inr (initial_game sto) \<and>
      load_top_scores (initial_game sto) = Inr (initial_game sto)) \<and>
   (dinoHighScore sto = None \<or> dinoHighScore sto = Some HsEmpty \<longrightarrow>
      load_high_score (initial_game sto) = Inr (initial_game sto)) \<and>
   (dinoScores sto = None \<or> dinoScores sto = Some JsonEmpty \<or>
    dinoScores sto = Some JsonMalformed \<or> dinoScores sto = Some (JsonValue JNoSlice) \<longrightarrow>
      load_top_scores (initial_game sto) = Inr (initial_game sto)) \<and>
   highScore (initial_game sto) = Num 0 \<and> topScores (initial_game sto) = JNumArr [] \<and>
   (\<exists>g'. load_high_score g = Inr g') \<and> (\<exists>g'. load_top_scores g = Inr g') \<and>
   (readable (localStorage g) \<and> dinoHighScore (localStorage g) = Some (HsNumber n) \<longrightarrow>
      load_high_score g = Inr (g\<lparr>highScore := n\<rparr>)) \<and>
   (readable (localStorage g) \<and> dinoScores (localStorage g) = Some (JsonValue (JNumArr xs)) \<longrightarrow>
      load_top_scores g = Inr (g\<lparr>topScores := JNumArr (take 10 xs)\<rparr>)) \<and>
   (readable (localStorage g) \<and> dinoScores (localStorage g) = Some (JsonValue (JStr s)) \<longrightarrow>
      load_top_scores g = Inr (g\<lparr>topScores := JStr (take 10 s)\<rparr>)) \<and>
   (\<not> readable (localStorage g) \<or> dinoHighScore (localStorage g) = None \<or>
    dinoHighScore (localStorage g) = Some HsEmpty \<longrightarrow> load_high_score g = Inr g) \<and>
   (\<not> readable (localStorage g) \<or> dinoScores (localStorage g) = Some JsonMalformed \<or>
    dinoScores (localStorage g) = Some (JsonValue JNoSlice) \<longrightarrow> load_top_scores g = Inr g) \<and>
   (readable (localStorage g) \<and>
    (dinoScores (localStorage g) = None \<or> dinoScores (localStorage g) = Some JsonEmpty) \<longrightarrow>
      load_top_scores g = Inr (g\<lparr>topScores := JNumArr []\<rparr>))"
proof -
  have defaults: "(\<not> readable sto \<longrightarrow>
      load_high_score (initial_game sto) = Inr (initial_game sto) \<and>
      load_top_scores (initial_game sto) = Inr (initial_game sto)) \<and>
   (dinoHighScore sto = None \<or> dinoHighScore sto = Some HsEmpty \<longrightarrow>
      load_high_score (initial_game sto) = Inr (initial_game sto)) \<and>
   (dinoScores sto = None \<or> dinoScores sto = Some JsonEmpty \<or>
    dinoScores sto = Some JsonMalformed \<or> dinoScores sto = Some (JsonValue JNoSlice) \<longrightarrow>
      load_top_scores (initial_game sto) = Inr (initial_game sto)) \<and>
   highScore (initial_game sto) = Num 0 \<and> topScores (initial_game sto) = JNumArr []"
    by (auto simp: load_high_score_def load_top_scores_def try_catch_def bind_exn_def getItem_def
          initial_game_def)
  show ?thesis
    using defaults load_never_throws [of g] load_pass_through [of g] load_unchanged [of g]
    by blast
qed

theorem load_defaults_witness:
  "\<not> readable broken_storage \<and> dinoHighScore broken_storage = None \<and>
   dinoScores broken_storage = Some JsonMalformed \<and>
   load_high_score (initial_game broken_storage) = Inr (initial_game broken_storage) \<and>
   load_top_scores (initial_game broken_storage) = Inr (initial_game broken_storage) \<and>
   highScore (initial_game broken_storage) = Num 0 \<and>
   topScores (initial_game broken_storage) = JNumArr [] \<and>
   readable long_storage \<and>
   dinoHighScore long_storage = Some (HsNumber (Num 120)) \<and>
   load_high_score (initial_game long_storage) =
     Inr ((initial_game long_storage)\<lparr>highScore := Num 120\<rparr>) \<and>
   load_top_scores (initial_game long_storage) =
     Inr ((initial_game long_storage)\<lparr>topScores := JNumArr [120, 110, 100, 90, 80, 70, 60, 50, 40, 30]\<rparr>) \<and>
   readable corrupt_storage \<and>
   load_high_score (initial_game corrupt_storage) =
     Inr ((initial_game corrupt_storage)\<lparr>highScore := NaN\<rparr>) \<and>
   load_top_scores (initial_game corrupt_storage) =
     Inr ((initial_game corrupt_storage)\<lparr>topScores := JStr ''none''\<rparr>) \<and>
   readable empty_storage \<and> dinoScores empty_storage = None \<and>
   load_high_score (initial_game empty_storage) = Inr (initial_game empty_storage) \<and>
   load_top_scores (initial_game empty_storage) =
     Inr ((initial_game empty_storage)\<lparr>topScores := JNumArr []\<rparr>)"
proof -
  have sto: "localStorage (initial_game sto) = sto" for sto
    by (simp add: initial_game_def)
  have a: "load_high_score (initial_game broken_storage) = Inr (initial_game broken_storage) \<and>
      load_top_scores (initial_game broken_storage) = Inr (initial_game broken_storage) \<and>
      highScore (initial_game broken_storage) = Num 0 \<and>
      topScores (initial_game broken_storage) = JNumArr []"
    using load_defaults [where sto = broken_storage and g = "initial_game broken_storage"
        and n = NaN and xs = "[]" and s = "[]"]
    by (simp add: broken_storage_def)
  have b: "load_high_score (initial_game long_storage) =
        Inr ((initial_game long_storage)\<lparr>highScore := Num 120\<rparr>) \<and>
      load_top_scores (initial_game long_storage) =
        Inr ((initial_game long_storage)\<lparr>topScores := JNumArr [120, 110, 100, 90, 80, 70, 60, 50, 40, 30]\<rparr>)"
    using load_defaults [where sto = long_storage and g = "initial_game long_storage"
        and n = "Num 120" and xs = "[120, 110, 100, 90, 80, 70, 60, 50, 40, 30, 20, 10]" and s = "[]"]
    by (simp add: sto long_storage_def)
  have c: "load_high_score (initial_game corrupt_storage) =
        Inr ((initial_game corrupt_storage)\<lparr>highScore := NaN\<rparr>) \<and>
      load_top_scores (initial_game corrupt_storage) =
        Inr ((initial_game corrupt_storage)\<lparr>topScores := JStr ''none''\<rparr>)"
    using load_defaults [where sto = corrupt_storage and g = "initial_game corrupt_storage"
        and n = NaN and xs = "[]" and s = "''none''"]
    by (simp add: sto corrupt_storage_def)
  have d: "load_high_score (initial_game empty_storage) = Inr (initial_game empty_storage) \<and>
      load_top_scores (initial_game empty_storage) =
        Inr ((initial_game empty_storage)\<lparr>topScores := JNumArr []\<rparr>)"
    using load_defaults [where sto = empty_storage and g = "initial_game empty_storage"
        and n = NaN and xs = "[]" and s = "[]"]
    by (simp add: sto empty_storage_def)
  show ?thesis
    using a b c d
    by (simp add: broken_storage_def long_storage_def corrupt_storage_def empty_storage_def)
qed

section \<open>Runs of the loop\<close>

lemma run_ticks_Cons:
  "run_ticks (i # rest) g =
     (if snd (step i g) = Rescheduled
      then (fst (run_ticks rest (fst (step i g))), Rescheduled # snd (run_ticks rest (fst (step i g))))
      else (fst (step i g), [snd (step i g)]))"
  by (cases "step i g"; cases "snd (step i g)") (auto simp: run_ticks.simps(2) split: prod.splits)

declare run_ticks.simps(2) [simp del]

lemma step_Rescheduled_running:
  "snd (step i g) = Rescheduled \<Longrightarrow> isRunning (fst (step i g))"
  by (auto simp: step_def Let_def simulate_fields split: if_splits)

lemma tick_dt_le: "tick_dt i g \<le> 0.032"
  by (simp add: tick_dt_def Let_def)

text \<open>
  A tick has a non-negative time step when its timestamp is not before the one the
  state remembers.
\<close>

lemma tick_dt_nonneg:
  "(\<And>t. lastTime g = Some t \<Longrightarrow> t \<le> time i) \<Longrightarrow> 0 \<le> tick_dt i g"
  by (cases "lastTime g") (auto simp: tick_dt_def Let_def)

lemma tick_dt_paced:
  "lastTime g = Some t \<Longrightarrow> t \<noteq> 0 \<Longrightarrow> time i = t + 20 \<Longrightarrow> tick_dt i g = 0.02"
  by (simp add: tick_dt_def Let_def)

lemma step_speed:
  "speed (fst (step i g)) = min 560 (speed g + tick_dt i g * 8)"
  by (simp add: step_fields simulate_fields)

lemma step_score:
  "score (fst (step i g)) = (if isRunning g then score g + \<lfloor>tick_dt i g * 100\<rfloor> else score g)"
  by (simp only: step_fields simulate_fields)

lemma step_lastTime: "lastTime (fst (step i g)) = Some (time i)"
  by (simp add: step_fields simulate_fields)

lemma run_ticks_monotone:
  assumes "sorted (map time ticks)"
    and "\<And>t i. lastTime g = Some t \<Longrightarrow> i \<in> set ticks \<Longrightarrow> t \<le> time i"
    and "speed g \<le> 560"
  shows "speed g \<le> speed (fst (run_ticks ticks g)) \<and> speed (fst (run_ticks ticks g)) \<le> 560 \<and>
         score g \<le> score (fst (run_ticks ticks g))"
  using assms
proof (induction ticks arbitrary: g)
  case Nil
  then show ?case by simp
next
  case (Cons i rest)
  let ?g = "fst (step i g)"
  have dt: "0 \<le> tick_dt i g"
    using Cons.prems(2) by (intro tick_dt_nonneg) simp
  have sp: "speed g \<le> speed ?g" "speed ?g \<le> 560"
    using dt Cons.prems(3) by (simp_all add: step_speed)
  have "0 \<le> \<lfloor>tick_dt i g * 100\<rfloor>"
    using dt by simp
  then have sc: "score g \<le> score ?g"
    by (simp add: step_score)
  show ?case
  proof (cases "snd (step i g) = Rescheduled")
    case True
    have "speed ?g \<le> speed (fst (run_ticks rest ?g)) \<and> speed (fst (run_ticks rest ?g)) \<le> 560 \<and>
          score ?g \<le> score (fst (run_ticks rest ?g))"
    proof (rule Cons.IH)
      show "sorted (map time rest)" using Cons.prems(1) by simp
      show "\<And>t j. lastTime ?g = Some t \<Longrightarrow> j \<in> set rest \<Longrightarrow> t \<le> time j"
        using Cons.prems(1) by (auto simp: step_lastTime)
      show "speed ?g \<le> 560" by (rule sp(2))
    qed
    with True sp sc show ?thesis by (simp add: run_ticks_Cons)
  next
    case False
    with sp sc show ?thesis by (simp add: run_ticks_Cons)
  qed
qed

lemma run_ticks_prefix_speed:
  assumes "sorted (map time ticks)"
    and "\<And>t i. lastTime g = Some t \<Longrightarrow> i \<in> set ticks \<Longrightarrow> t \<le> time i"
    and "speed g \<le> 560"
  shows "speed (fst (run_ticks (take n ticks) g)) \<le> speed (fst (run_ticks ticks g)) \<and>
         score (fst (run_ticks (take n ticks) g)) \<le> score (fst (run_ticks ticks g))"
  using assms
proof (induction ticks arbitrary: g n)
  case Nil
  then show ?case by simp
next
  case (Cons i rest)
  show ?case
  proof (cases n)
    case 0
    with run_ticks_monotone [OF Cons.prems] show ?thesis by simp
  next
    case (Suc m)
    let ?g = "fst (step i g)"
    have dt: "0 \<le> tick_dt i g"
      using Cons.prems(2) by (intro tick_dt_nonneg) simp
    have sp: "speed ?g \<le> 560"
      by (simp add: step_speed)
    have "speed (fst (run_ticks (take m rest) ?g)) \<le> speed (fst (run_ticks rest ?g)) \<and>
          score (fst (run_ticks (take m rest) ?g)) \<le> score (fst (run_ticks rest ?g))"
    proof (rule Cons.IH)
      show "sorted (map time rest)" using Cons.prems(1) by simp
      show "\<And>t j. lastTime ?g = Some t \<Longrightarrow> j \<in> set rest \<Longrightarrow> t \<le> time j"
        using Cons.prems(1) by (auto simp: step_lastTime)
      show "speed ?g \<le> 560" by (rule sp)
    qed
    with Suc show ?thesis by (simp add: run_ticks_Cons)
  qed
qed

lemma run_ticks_paced_score:
  assumes "isRunning g" and "lastTime g = Some t" and "0 < t" and "paced 20 t ticks"
  shows "score (fst (run_ticks ticks g)) = score g + 2 * int (length (snd (run_ticks ticks g)))"
  using assms
proof (induction ticks arbitrary: g t)
  case Nil
  then show ?case by simp
next
  case (Cons i rest)
  let ?g = "fst (step i g)"
  have dt: "tick_dt i g = 0.02"
    using Cons.prems by (intro tick_dt_paced [of g t]) simp_all
  have "\<lfloor>tick_dt i g * 100\<rfloor> = 2"
    unfolding dt by simp
  then have sc: "score ?g = score g + 2"
    using Cons.prems(1) by (simp add: step_score)
  show ?case
  proof (cases "snd (step i g) = Rescheduled")
    case True
    have "score (fst (run_ticks rest ?g)) = score ?g + 2 * int (length (snd (run_ticks rest ?g)))"
    proof (rule Cons.IH)
      show "isRunning ?g" using True by (rule step_Rescheduled_running)
      show "lastTime ?g = Some (time i)" by (rule step_lastTime)
      show "0 < time i" using Cons.prems by simp
      show "paced 20 (time i) rest" using Cons.prems(4) by auto
    qed
    with True sc show ?thesis by (simp add: run_ticks_Cons)
  next
    case False
    with sc show ?thesis by (simp add: run_ticks_Cons)
  qed
qed

section \<open>Obstacles during a tick\<close>

lemma spawn_obstacle_obstacles_cong:
  "obstacles g' = obstacles g \<Longrightarrow> spawnTimer g' = spawnTimer g \<Longrightarrow>
   obstacles (spawn_obstacle dt i g') = obstacles (spawn_obstacle dt i g)"
  by (simp add: spawn_obstacle_def Let_def)

lemma simulate_obstacles:
  "obstacles (simulate i g) =
     filter (\<lambda>ob. ob_x ob + of_int (ob_width ob) > 0)
       (map (\<lambda>ob. ob\<lparr>ob_x := ob_x ob - min 560 (speed g + tick_dt i g * 8) * tick_dt i g\<rparr>)
          (obstacles (spawn_obstacle (tick_dt i g) i g)))"
proof -
  let ?dt = "tick_dt i g"
  let ?g = "integrate_player ?dt i (advance_score_speed ?dt i g)"
  have "obstacles (spawn_obstacle ?dt i ?g) = obstacles (spawn_obstacle ?dt i g)"
    by (rule spawn_obstacle_obstacles_cong)
       (simp_all add: integrate_player_def advance_score_speed_def Let_def)
  moreover have "speed (spawn_obstacle ?dt i ?g) = min 560 (speed g + ?dt * 8)"
    by (simp only: phase_fields)
  ultimately show ?thesis
    unfolding simulate_def Let_def
    by (simp only: update_clouds_fields) (simp add: move_obstacles_def)
qed

lemma spawn_obstacle_members:
  "ob \<in> set (obstacles (spawn_obstacle dt i g)) \<Longrightarrow>
   ob \<in> set (obstacles g) \<or> (ob_x ob = of_nat (canvas_width i) + 10 \<and> 10 \<le> ob_width ob)"
  by (auto simp: spawn_obstacle_def Let_def split: option.splits if_splits)

lemma scroll_per_tick:
  assumes "0 \<le> dt" and "dt \<le> 0.032" and "s \<le> (560::real)"
  shows "s * dt \<le> 18"
proof -
  have "s * dt \<le> 560 * dt" using assms(1,3) by (rule mult_right_mono [rotated])
  also have "\<dots> \<le> 560 * 0.032" using assms(2) by simp
  also have "\<dots> \<le> 18" by simp
  finally show ?thesis .
qed

lemma simulate_obstacles_far:
  assumes far: "\<And>ob. ob \<in> set (obstacles g) \<Longrightarrow> 0 \<le> ob_width ob \<and> b + 18 \<le> ob_x ob"
    and edge: "b + 18 \<le> of_nat (canvas_width i) + 10"
    and dt: "0 \<le> tick_dt i g"
    and ob: "ob \<in> set (obstacles (simulate i g))"
  shows "0 \<le> ob_width ob \<and> b \<le> ob_x ob"
proof -
  let ?d = "min 560 (speed g + tick_dt i g * 8) * tick_dt i g"
  from ob obtain ob0 where ob0: "ob0 \<in> set (obstacles (spawn_obstacle (tick_dt i g) i g))"
    and eq: "ob = ob0\<lparr>ob_x := ob_x ob0 - ?d\<rparr>"
    by (auto simp: simulate_obstacles)
  have d: "?d \<le> 18"
    using dt tick_dt_le by (intro scroll_per_tick) simp_all
  have "0 \<le> ob_width ob0 \<and> b + 18 \<le> ob_x ob0"
    using spawn_obstacle_members [OF ob0] far edge by auto
  with d eq show ?thesis by simp
qed

section \<open>The collision test\<close>

lemma shrink_size: "1 \<le> rw (shrink fx fy r)" "1 \<le> rh (shrink fx fy r)"
  by (simp_all add: shrink_def Let_def)

lemma noOverlap_iff:
  "0 < rw a \<Longrightarrow> 0 < rh a \<Longrightarrow> 0 < rw b \<Longrightarrow> 0 < rh b \<Longrightarrow>
   noOverlap a b \<longleftrightarrow> \<not> overlap_strictly a b"
  by (auto simp: noOverlap_def overlap_strictly_def)

lemma hitboxes_overlap_iff:
  "noOverlap (player_hitbox i g) (obstacle_hitbox i ob) \<longleftrightarrow>
   \<not> overlap_strictly (player_hitbox i g) (obstacle_hitbox i ob)"
proof (rule noOverlap_iff)
  show "0 < rw (player_hitbox i g)" "0 < rh (player_hitbox i g)"
    using shrink_size [of "0.12" "0.08" "character_rect i g"] by (simp_all add: player_hitbox_def)
  show "0 < rw (obstacle_hitbox i ob)" "0 < rh (obstacle_hitbox i ob)"
    using shrink_size [of "0.15" "0.05" "obstacle_rect i ob"] by (simp_all add: obstacle_hitbox_def)
qed

lemma collides_iff:
  "collides c i obs \<longleftrightarrow> (\<exists>ob\<in>set obs. \<not> noOverlap c (obstacle_hitbox i ob))"
  by (induction obs) auto

lemma beside_noOverlap: "beside a b \<Longrightarrow> noOverlap a b"
  by (auto simp: beside_def noOverlap_def)

lemma step_GameEnded_iff:
  "snd (step i g) = GameEnded \<longleftrightarrow>
   isRunning g \<and> collides (player_hitbox i (simulate i g)) i (obstacles (simulate i g))"
  by (simp add: step_def Let_def)

lemma step_flags:
  "snd (step i g) = GameEnded \<Longrightarrow> isGameOver (fst (step i g)) \<and> \<not> isRunning (fst (step i g))"
  "snd (step i g) \<noteq> GameEnded \<Longrightarrow>
     isGameOver (fst (step i g)) = isGameOver g \<and> isRunning (fst (step i g)) = isRunning g"
  by (auto simp: step_def Let_def endGame_fields simulate_fields split: if_splits)

text \<open>
  C2. A tick of a running session ends the game exactly when, for some obstacle alive at
  the collision test, the player's hitbox and the obstacle's hitbox overlap strictly on
  both axes; ending the game sets the game-over flag and stops the session, and a tick
  that does not end the game leaves both flags alone. A hitbox that lies entirely to the
  left or to the right of the player's passes the test of line 307 as not overlapping,
  and when that holds of every obstacle the tick does not end the game.
\<close>

theorem game_over_iff_overlap:
  "(snd (step i g) = GameEnded \<longleftrightarrow>
      isRunning g \<and>
      (\<exists>ob\<in>set (obstacles (simulate i g)).
          overlap_strictly (player_hitbox i (simulate i g)) (obstacle_hitbox i ob))) \<and>
   (snd (step i g) = GameEnded \<longrightarrow>
      isGameOver (fst (step i g)) \<and> \<not> isRunning (fst (step i g))) \<and>
   (snd (step i g) \<noteq> GameEnded \<longrightarrow>
      isGameOver (fst (step i g)) = isGameOver g \<and> isRunning (fst (step i g)) = isRunning g) \<and>
   (beside (player_hitbox i (simulate i g)) (obstacle_hitbox i ob) \<longrightarrow>
      noOverlap (player_hitbox i (simulate i g)) (obstacle_hitbox i ob)) \<and>
   ((\<forall>ob\<in>set (obstacles (simulate i g)).
        beside (player_hitbox i (simulate i g)) (obstacle_hitbox i ob)) \<longrightarrow>
      snd (step i g) \<noteq> GameEnded)"
proof -
  let ?p = "player_hitbox i (simulate i g)"
  have ended: "snd (step i g) = GameEnded \<longleftrightarrow>
      isRunning g \<and> (\<exists>ob\<in>set (obstacles (simulate i g)). overlap_strictly ?p (obstacle_hitbox i ob))"
    by (simp add: step_GameEnded_iff collides_iff hitboxes_overlap_iff)
  have one: "beside ?p (obstacle_hitbox i ob) \<longrightarrow> noOverlap ?p (obstacle_hitbox i ob)"
    by (simp add: beside_noOverlap)
  have "\<not> collides ?p i (obstacles (simulate i g))"
    if "\<forall>ob\<in>set (obstacles (simulate i g)). beside ?p (obstacle_hitbox i ob)"
    using that by (auto simp: collides_iff dest: beside_noOverlap)
  then have none: "(\<forall>ob\<in>set (obstacles (simulate i g)). beside ?p (obstacle_hitbox i ob)) \<longrightarrow>
      snd (step i g) \<noteq> GameEnded"
    by (simp add: step_GameEnded_iff)
  show ?thesis
    using ended one none step_flags [of i g] by blast
qed

lemma colliding_session_fields:
  "isRunning colliding_session" "lastTime colliding_session = None"
  "obstacles colliding_session = [plain_obstacle\<lparr>ob_x := 1060\<rparr>]"
  "spawnTimer colliding_session = 1" "playerY colliding_session = 1856"
  "playerVy colliding_session = 0"
  by (simp_all add: colliding_session_def fresh_session_flags fresh_session_player)

lemma colliding_session_obstacles:
  "obstacles (simulate (tick_at 1000) colliding_session) = [plain_obstacle\<lparr>ob_x := 1060\<rparr>]"
  by (simp add: simulate_obstacles tick_dt_first colliding_session_fields spawn_obstacle_def
        plain_obstacle_def)

lemma colliding_session_hitbox:
  "player_hitbox (tick_at 1000) (simulate (tick_at 1000) colliding_session) =
     \<lparr>rx = 1058, ry = 1861, rw = 44, rh = 54\<rparr>"
  by (simp add: player_hitbox_fallback tick_at_fields player_px_tick_at simulate_player
        tick_dt_first colliding_session_fields integrate_player_def groundY_def PLAYER_HEIGHT_def
        gravity_def)

lemma fresh_session_obstacles:
  "obstacles (simulate (tick_at 1000) fresh_session) = [plain_obstacle]"
  by (simp add: simulate_obstacles tick_dt_first fresh_session_player spawn_obstacle_def
        fresh_session_def resetGame_def plain_obstacle_def tick_at_fields)

lemma fresh_session_hitbox:
  "player_hitbox (tick_at 1000) (simulate (tick_at 1000) fresh_session) =
     \<lparr>rx = 1058, ry = 1861, rw = 44, rh = 54\<rparr>"
  by (simp add: player_hitbox_fallback tick_at_fields player_px_tick_at simulate_player
        tick_dt_first fresh_session_player integrate_player_def groundY_def PLAYER_HEIGHT_def
        gravity_def)

theorem game_over_iff_overlap_witness:
  "isRunning colliding_session \<and>
   obstacles (simulate (tick_at 1000) colliding_session) = [plain_obstacle\<lparr>ob_x := 1060\<rparr>] \<and>
   overlap_strictly (player_hitbox (tick_at 1000) (simulate (tick_at 1000) colliding_session))
     (obstacle_hitbox (tick_at 1000) (plain_obstacle\<lparr>ob_x := 1060\<rparr>)) \<and>
   snd (step (tick_at 1000) colliding_session) = GameEnded \<and>
   isGameOver (fst (step (tick_at 1000) colliding_session)) \<and>
   beside (player_hitbox (tick_at 1000) (simulate (tick_at 1000) colliding_session))
     (obstacle_hitbox (tick_at 1000) plain_obstacle) \<and>
   noOverlap (player_hitbox (tick_at 1000) (simulate (tick_at 1000) colliding_session))
     (obstacle_hitbox (tick_at 1000) plain_obstacle) \<and>
   obstacles (simulate (tick_at 1000) fresh_session) = [plain_obstacle] \<and>
   beside (player_hitbox (tick_at 1000) (simulate (tick_at 1000) fresh_session))
     (obstacle_hitbox (tick_at 1000) plain_obstacle) \<and>
   snd (step (tick_at 1000) fresh_session) = Rescheduled"
proof -
  have hit: "obstacle_hitbox (tick_at 1000) (plain_obstacle\<lparr>ob_x := 1060\<rparr>) =
      \<lparr>rx = 1062, ry = 1874, rw = 14, rh = 44\<rparr>"
    by (simp add: obstacle_hitbox_def obstacle_rect_def shrink_def Let_def plain_obstacle_def
          floor_facts tick_at_fields)
  have far: "obstacle_hitbox (tick_at 1000) plain_obstacle =
      \<lparr>rx = 2172, ry = 1874, rw = 14, rh = 44\<rparr>"
    by (simp add: obstacle_hitbox_def obstacle_rect_def shrink_def Let_def plain_obstacle_def
          floor_facts tick_at_fields)
  have ov: "overlap_strictly (player_hitbox (tick_at 1000) (simulate (tick_at 1000) colliding_session))
        (obstacle_hitbox (tick_at 1000) (plain_obstacle\<lparr>ob_x := 1060\<rparr>))"
    by (simp add: colliding_session_hitbox hit overlap_strictly_def)
  then have ex: "\<exists>ob\<in>set (obstacles (simulate (tick_at 1000) colliding_session)).
      overlap_strictly (player_hitbox (tick_at 1000) (simulate (tick_at 1000) colliding_session))
        (obstacle_hitbox (tick_at 1000) ob)"
    by (simp add: colliding_session_obstacles)
  have bes: "beside (player_hitbox (tick_at 1000) (simulate (tick_at 1000) colliding_session))
     (obstacle_hitbox (tick_at 1000) plain_obstacle)"
    by (simp add: colliding_session_hitbox far beside_def)
  have bes': "beside (player_hitbox (tick_at 1000) (simulate (tick_at 1000) fresh_session))
        (obstacle_hitbox (tick_at 1000) plain_obstacle)"
    by (simp add: fresh_session_hitbox far beside_def)
  then have all: "\<forall>ob\<in>set (obstacles (simulate (tick_at 1000) fresh_session)).
      beside (player_hitbox (tick_at 1000) (simulate (tick_at 1000) fresh_session))
        (obstacle_hitbox (tick_at 1000) ob)"
    by (simp add: fresh_session_obstacles)
  have "snd (step (tick_at 1000) fresh_session) \<noteq> GameEnded"
    using game_over_iff_overlap [of "tick_at 1000" fresh_session plain_obstacle] all by blast
  then have res: "snd (step (tick_at 1000) fresh_session) = Rescheduled"
    by (simp add: step_def Let_def fresh_session_flags split: if_splits)
  show ?thesis
    using game_over_iff_overlap [of "tick_at 1000" colliding_session plain_obstacle] ex ov bes bes' res
    by (simp add: colliding_session_fields colliding_session_obstacles fresh_session_obstacles)
qed

section \<open>A run without collision\<close>

lemma collides_far:
  "(\<And>ob. ob \<in> set obs \<Longrightarrow> 0 \<le> ob_width ob \<and> rx c + rw c \<le> ob_x ob) \<Longrightarrow> \<not> collides c i obs"
proof (induction obs)
  case Nil
  then show ?case by simp
next
  case (Cons ob obs)
  have w: "0 \<le> ob_width ob" and x: "rx c + rw c \<le> ob_x ob"
    using Cons.prems [of ob] by simp_all
  have eq: "rx (obstacle_hitbox i ob) = ob_x ob + of_int \<lfloor>of_int (ob_width ob) * (0.15::real)\<rfloor>"
    by (simp add: obstacle_hitbox_def obstacle_rect_def shrink_def Let_def)
  have "0 \<le> \<lfloor>of_int (ob_width ob) * (0.15::real)\<rfloor>"
    using w by simp
  then have "(0::real) \<le> of_int \<lfloor>of_int (ob_width ob) * (0.15::real)\<rfloor>"
    by (simp only: of_int_0_le_iff)
  with eq x have "rx c + rw c \<le> rx (obstacle_hitbox i ob)"
    by linarith
  then have "noOverlap c (obstacle_hitbox i ob)"
    by (simp add: noOverlap_def)
  moreover have "\<not> collides c i obs"
    using Cons.prems by (intro Cons.IH) simp
  ultimately show ?case by simp
qed

lemma run_ticks_clear:
  assumes "isRunning g"
    and "\<And>i. i \<in> set ticks \<Longrightarrow> canvas_width i = cw \<and> \<not> usable (img_character (images i))"
    and "sorted (map time ticks)"
    and "\<And>t i. lastTime g = Some t \<Longrightarrow> i \<in> set ticks \<Longrightarrow> t \<le> time i"
    and "\<And>ob. ob \<in> set (obstacles g) \<Longrightarrow>
           0 \<le> ob_width ob \<and>
           of_int \<lfloor>(of_nat cw - 56) / (2::real)\<rfloor> + 50 + 18 * of_nat (length ticks) \<le> ob_x ob"
    and "of_int \<lfloor>(of_nat cw - 56) / (2::real)\<rfloor> + 50 + 18 * of_nat (length ticks) \<le> of_nat cw + (10::real)"
  shows "snd (run_ticks ticks g) = replicate (length ticks) Rescheduled"
  using assms
proof (induction ticks arbitrary: g)
  case Nil
  then show ?case by simp
next
  case (Cons i rest)
  let ?b = "of_int \<lfloor>(of_nat cw - 56) / (2::real)\<rfloor> + 50 + 18 * of_nat (length rest) :: real"
  let ?g = "fst (step i g)"
  have i: "canvas_width i = cw" "\<not> usable (img_character (images i))"
    using Cons.prems(2) [of i] by simp_all
  have dt: "0 \<le> tick_dt i g"
    using Cons.prems(4) by (intro tick_dt_nonneg) simp
  have far: "0 \<le> ob_width ob \<and> ?b \<le> ob_x ob" if "ob \<in> set (obstacles (simulate i g))" for ob
  proof (rule simulate_obstacles_far [OF _ _ dt that])
    show "\<And>ob. ob \<in> set (obstacles g) \<Longrightarrow> 0 \<le> ob_width ob \<and> ?b + 18 \<le> ob_x ob"
      using Cons.prems(5) by (simp add: algebra_simps)
    show "?b + 18 \<le> of_nat (canvas_width i) + 10"
      using Cons.prems(6) i(1) by (simp add: algebra_simps)
  qed
  have edge: "rx (player_hitbox i (simulate i g)) + rw (player_hitbox i (simulate i g)) \<le> ?b"
    using i by (simp add: player_hitbox_fallback player_px_def PLAYER_WIDTH_def)
  have "\<not> collides (player_hitbox i (simulate i g)) i (obstacles (simulate i g))"
    using far edge by (intro collides_far) force
  then have res: "step i g = (simulate i g, Rescheduled)"
    using Cons.prems(1) by (simp add: step_def Let_def)
  have "snd (run_ticks rest ?g) = replicate (length rest) Rescheduled"
  proof (rule Cons.IH)
    show "isRunning ?g" using Cons.prems(1) by (simp add: res simulate_fields)
    show "\<And>j. j \<in> set rest \<Longrightarrow> canvas_width j = cw \<and> \<not> usable (img_character (images j))"
      using Cons.prems(2) by simp
    show "sorted (map time rest)" using Cons.prems(3) by simp
    show "\<And>t j. lastTime ?g = Some t \<Longrightarrow> j \<in> set rest \<Longrightarrow> t \<le> time j"
      using Cons.prems(3) by (auto simp: step_lastTime)
    show "\<And>ob. ob \<in> set (obstacles ?g) \<Longrightarrow> 0 \<le> ob_width ob \<and> ?b \<le> ob_x ob"
      using far by (simp add: res)
    show "?b \<le> of_nat cw + 10"
      using Cons.prems(6) by simp
  qed
  then show ?case by (simp add: run_ticks_Cons res)
qed

lemma ticks_from_length: "length (ticks_from t n) = n"
  by (induction n arbitrary: t) simp_all

lemma ticks_from_paced: "paced 20 t (ticks_from t n)"
  by (induction n arbitrary: t) (simp_all add: tick_at_fields)

lemma ticks_from_mem:
  "i \<in> set (ticks_from t n) \<Longrightarrow> t \<le> time i \<and> (\<exists>u. i = tick_at u)"
proof (induction n arbitrary: t)
  case 0
  then show ?case by simp
next
  case (Suc n)
  from Suc.prems have "i = tick_at (t + 20) \<or> i \<in> set (ticks_from (t + 20) n)" by simp
  then show ?case
  proof
    assume "i = tick_at (t + 20)"
    then show ?thesis by (auto simp: tick_at_fields)
  next
    assume "i \<in> set (ticks_from (t + 20) n)"
    then have "t + 20 \<le> time i \<and> (\<exists>u. i = tick_at u)" by (rule Suc.IH)
    then show ?thesis by auto
  qed
qed

lemma ticks_from_sorted: "sorted (map time (ticks_from t n))"
proof (induction n arbitrary: t)
  case 0
  then show ?case by simp
next
  case (Suc n)
  have "\<And>i. i \<in> set (ticks_from (t + 20) n) \<Longrightarrow> t + 20 \<le> time i"
    using ticks_from_mem by blast
  with Suc show ?case by (auto simp: tick_at_fields)
qed

lemma running_session_fields:
  "isRunning running_session" "lastTime running_session = Some 1000"
  "obstacles running_session = []" "score running_session = 0" "speed running_session = 260"
  by (simp_all add: running_session_def fresh_session_flags fresh_session_player)

lemma fifty_clear_ticks:
  "snd (run_ticks (ticks_from 1000 50) running_session) = replicate 50 Rescheduled"
proof -
  have "snd (run_ticks (ticks_from 1000 50) running_session) =
        replicate (length (ticks_from 1000 50)) Rescheduled"
  proof (rule run_ticks_clear [where cw = 2160])
    show "isRunning running_session" by (rule running_session_fields)
    show "canvas_width i = 2160 \<and> \<not> usable (img_character (images i))"
      if "i \<in> set (ticks_from 1000 50)" for i
      using ticks_from_mem [OF that] by (auto simp: tick_at_fields)
    show "sorted (map time (ticks_from 1000 50))" by (rule ticks_from_sorted)
    show "t \<le> time i"
      if "lastTime running_session = Some t" "i \<in> set (ticks_from 1000 50)" for t i
      using ticks_from_mem [OF that(2)] that(1) by (simp add: running_session_fields)
    show "\<And>ob. ob \<in> set (obstacles running_session) \<Longrightarrow>
           0 \<le> ob_width ob \<and>
           of_int \<lfloor>(of_nat 2160 - 56) / (2::real)\<rfloor> + 50 + 18 * of_nat (length (ticks_from 1000 50)) \<le> ob_x ob"
      by (simp add: running_session_fields)
    show "of_int \<lfloor>(of_nat 2160 - 56) / (2::real)\<rfloor> + 50 + 18 * of_nat (length (ticks_from 1000 50))
            \<le> of_nat 2160 + (10::real)"
      by (simp add: ticks_from_length)
  qed
  then show ?thesis by (simp add: ticks_from_length)
qed

section \<open>Score and scroll speed\<close>

lemma run_ticks_score_monotone:
  assumes "sorted (map time ticks)"
    and "\<And>t i. lastTime g = Some t \<Longrightarrow> i \<in> set ticks \<Longrightarrow> t \<le> time i"
  shows "score g \<le> score (fst (run_ticks ticks g))"
  using assms
proof (induction ticks arbitrary: g)
  case Nil
  then show ?case by simp
next
  case (Cons i rest)
  let ?g = "fst (step i g)"
  have "0 \<le> tick_dt i g"
    using Cons.prems(2) by (intro tick_dt_nonneg) simp
  then have "0 \<le> \<lfloor>tick_dt i g * 100\<rfloor>"
    by simp
  then have sc: "score g \<le> score ?g"
    by (simp add: step_score)
  show ?case
  proof (cases "snd (step i g) = Rescheduled")
    case True
    have "score ?g \<le> score (fst (run_ticks rest ?g))"
    proof (rule Cons.IH)
      show "sorted (map time rest)" using Cons.prems(1) by simp
      show "\<And>t j. lastTime ?g = Some t \<Longrightarrow> j \<in> set rest \<Longrightarrow> t \<le> time j"
        using Cons.prems(1) by (auto simp: step_lastTime)
    qed
    with True sc show ?thesis by (simp add: run_ticks_Cons)
  next
    case False
    with sc show ?thesis by (simp add: run_ticks_Cons)
  qed
qed

text \<open>
  The time step of a tick in terms of the timestamps: the elapsed milliseconds divided by
  1000 and cut at 0.032; it is 0 when no earlier timestamp is remembered.
\<close>

lemma tick_dt_elapsed:
  "lastTime g = Some t \<Longrightarrow> t \<noteq> 0 \<Longrightarrow> tick_dt i g = min 0.032 ((time i - t) / 1000)"
  by (simp add: tick_dt_def)

lemma tick_dt_unset:
  "lastTime g = None \<or> lastTime g = Some 0 \<Longrightarrow> tick_dt i g = 0"
  by (auto simp: tick_dt_def)

lemma tick_dt_exact:
  assumes "lastTime g = Some t" and "t \<noteq> 0" and "0 \<le> dt" and "dt \<le> 0.032"
    and "time i = t + 1000 * dt"
  shows "tick_dt i g = dt"
proof -
  have "(time i - t) / 1000 = dt" using assms(5) by simp
  then show ?thesis using assms(1,2,4) by (simp add: tick_dt_elapsed)
qed

lemma tick_dt_clamped:
  assumes "lastTime g = Some t" and "t \<noteq> 0" and "t + 32 \<le> time i"
  shows "tick_dt i g = 0.032"
proof -
  have "0.032 \<le> (time i - t) / 1000" using assms(3) by simp
  then show ?thesis using assms(1,2) by (simp add: tick_dt_elapsed)
qed

lemma run_ticks_paced_speed:
  assumes "lastTime g = Some t" and "0 < t" and "0 \<le> d" and "d \<le> 32" and "paced d t ticks"
    and "speed g \<le> 560"
  shows "speed (fst (run_ticks ticks g)) =
         min 560 (speed g + 8 * (d / 1000) * of_nat (length (snd (run_ticks ticks g))))"
  using assms
proof (induction ticks arbitrary: g t)
  case Nil
  then show ?case by simp
next
  case (Cons i rest)
  let ?g = "fst (step i g)"
  have ti: "time i = t + d" and rest: "paced d (time i) rest"
    using Cons.prems(5) by auto
  have "tick_dt i g = d / 1000"
  proof (rule tick_dt_exact [OF Cons.prems(1)])
    show "t \<noteq> 0" using Cons.prems(2) by simp
    show "0 \<le> d / 1000" using Cons.prems(3) by simp
    show "d / 1000 \<le> 0.032" using Cons.prems(4) by simp
    show "time i = t + 1000 * (d / 1000)" using ti by simp
  qed
  then have sp: "speed ?g = min 560 (speed g + 8 * (d / 1000))"
    by (simp add: step_speed)
  show ?case
  proof (cases "snd (step i g) = Rescheduled")
    case True
    let ?n = "length (snd (run_ticks rest ?g))"
    have "speed (fst (run_ticks rest ?g)) = min 560 (speed ?g + 8 * (d / 1000) * of_nat ?n)"
    proof (rule Cons.IH)
      show "lastTime ?g = Some (time i)" by (rule step_lastTime)
      show "0 < time i" using ti Cons.prems(2,3) by simp
      show "0 \<le> d" "d \<le> 32" by (rule Cons.prems)+
      show "paced d (time i) rest" by (rule rest)
      show "speed ?g \<le> 560" by (simp add: sp)
    qed
    moreover have "0 \<le> 8 * (d / 1000) * of_nat ?n"
      using Cons.prems(3) by simp
    ultimately have "speed (fst (run_ticks rest ?g)) =
        min 560 (speed g + 8 * (d / 1000) + 8 * (d / 1000) * of_nat ?n)"
      unfolding sp by (simp add: min_def)
    with True show ?thesis by (simp add: run_ticks_Cons algebra_simps)
  next
    case False
    with sp show ?thesis by (simp add: run_ticks_Cons)
  qed
qed

lemma run_ticks_paced_score_gen:
  assumes "isRunning g" and "lastTime g = Some t" and "0 < t" and "0 \<le> d" and "d \<le> 32"
    and "paced d t ticks"
  shows "score (fst (run_ticks ticks g)) =
         score g + \<lfloor>d / 10\<rfloor> * int (length (snd (run_ticks ticks g)))"
  using assms
proof (induction ticks arbitrary: g t)
  case Nil
  then show ?case by simp
next
  case (Cons i rest)
  let ?g = "fst (step i g)"
  have ti: "time i = t + d" and rest: "paced d (time i) rest"
    using Cons.prems(6) by auto
  have dt: "tick_dt i g = d / 1000"
  proof (rule tick_dt_exact [OF Cons.prems(2)])
    show "t \<noteq> 0" using Cons.prems(3) by simp
    show "0 \<le> d / 1000" using Cons.prems(4) by simp
    show "d / 1000 \<le> 0.032" using Cons.prems(5) by simp
    show "time i = t + 1000 * (d / 1000)" using ti by simp
  qed
  have "\<lfloor>tick_dt i g * 100\<rfloor> = \<lfloor>d / 10\<rfloor>"
    unfolding dt by simp
  then have sc: "score ?g = score g + \<lfloor>d / 10\<rfloor>"
    using Cons.prems(1) by (simp add: step_score)
  show ?case
  proof (cases "snd (step i g) = Rescheduled")
    case True
    have "score (fst (run_ticks rest ?g)) =
          score ?g + \<lfloor>d / 10\<rfloor> * int (length (snd (run_ticks rest ?g)))"
    proof (rule Cons.IH)
      show "isRunning ?g" using True by (rule step_Rescheduled_running)
      show "lastTime ?g = Some (time i)" by (rule step_lastTime)
      show "0 < time i" using ti Cons.prems(3,4) by simp
      show "0 \<le> d" "d \<le> 32" by (rule Cons.prems)+
      show "paced d (time i) rest" by (rule rest)
    qed
    with True sc show ?thesis by (simp add: run_ticks_Cons algebra_simps)
  next
    case False
    with sc show ?thesis by (simp add: run_ticks_Cons)
  qed
qed

text \<open>
  C3. A tick of a running session adds \<open>floor(dt * 100)\<close> to the score, where \<open>dt\<close> is
  the time step of the tick: the seconds elapsed since the timestamp of the tick before,
  cut at 0.032, and 0 on the first tick. So for every \<open>dt\<close> from 0 to 0.032, a tick that
  comes \<open>1000 * dt\<close> milliseconds after the one before adds \<open>floor(dt * 100)\<close>; a tick that
  comes 32 milliseconds or more after it adds 3; the first tick adds nothing; and a tick
  outside a running session leaves the score alone. With \<open>dt\<close> not negative the score
  does not go down, in one tick and over a whole run of ticks whose timestamps do not
  decrease. A tick with \<open>dt = 0.02\<close> adds 2, and 50 ticks of a running session that
  follow one another 20 milliseconds apart add 100; ticks that follow one another \<open>d\<close>
  milliseconds apart, \<open>d\<close> from 0 to 32, add \<open>floor(d / 10)\<close> each.
\<close>

theorem score_rate:
  "(isRunning g \<longrightarrow> score (fst (step i g)) = score g + \<lfloor>tick_dt i g * 100\<rfloor>) \<and>
   tick_dt i g \<le> 0.032 \<and>
   (0 \<le> tick_dt i g \<longrightarrow> score g \<le> score (fst (step i g))) \<and>
   (isRunning g \<and> tick_dt i g = 0.02 \<longrightarrow> score (fst (step i g)) = score g + 2) \<and>
   (isRunning g \<and> lastTime g = Some t \<and> 0 < t \<and> paced 20 t ticks \<and>
    length (snd (run_ticks ticks g)) = 50 \<longrightarrow>
      score (fst (run_ticks ticks g)) = score g + 100) \<and>
   (sorted (map time ticks) \<and> (\<forall>i\<in>set ticks. \<forall>u. lastTime g = Some u \<longrightarrow> u \<le> time i) \<longrightarrow>
      score g \<le> score (fst (run_ticks ticks g))) \<and>
   (lastTime g = Some t \<and> t \<noteq> 0 \<longrightarrow> tick_dt i g = min 0.032 ((time i - t) / 1000)) \<and>
   (lastTime g = None \<or> lastTime g = Some 0 \<longrightarrow> tick_dt i g = 0) \<and>
   (isRunning g \<and> lastTime g = Some t \<and> t \<noteq> 0 \<and> 0 \<le> dt \<and> dt \<le> 0.032 \<and>
    time i = t + 1000 * dt \<longrightarrow>
      score (fst (step i g)) = score g + \<lfloor>dt * 100\<rfloor> \<and> score g \<le> score (fst (step i g))) \<and>
   (isRunning g \<and> lastTime g = Some t \<and> t \<noteq> 0 \<and> t + 32 \<le> time i \<longrightarrow>
      score (fst (step i g)) = score g + 3) \<and>
   (isRunning g \<and> (lastTime g = None \<or> lastTime g = Some 0) \<longrightarrow>
      score (fst (step i g)) = score g) \<and>
   (\<not> isRunning g \<longrightarrow> score (fst (step i g)) = score g) \<and>
   (isRunning g \<and> lastTime g = Some t \<and> 0 < t \<and> 0 \<le> d \<and> d \<le> 32 \<and> paced d t ticks \<longrightarrow>
      score (fst (run_ticks ticks g)) =
        score g + \<lfloor>d / 10\<rfloor> * int (length (snd (run_ticks ticks g))))"
proof -
  have one: "isRunning g \<longrightarrow> score (fst (step i g)) = score g + \<lfloor>tick_dt i g * 100\<rfloor>"
    by (simp add: step_score)
  have mono: "0 \<le> tick_dt i g \<longrightarrow> score g \<le> score (fst (step i g))"
  proof
    assume "0 \<le> tick_dt i g"
    then have "0 \<le> \<lfloor>tick_dt i g * 100\<rfloor>" by simp
    then show "score g \<le> score (fst (step i g))" by (simp add: step_score)
  qed
  have two: "isRunning g \<and> tick_dt i g = 0.02 \<longrightarrow> score (fst (step i g)) = score g + 2"
  proof
    assume a: "isRunning g \<and> tick_dt i g = 0.02"
    then have dt: "tick_dt i g = 0.02" by simp
    have "\<lfloor>tick_dt i g * 100\<rfloor> = 2" unfolding dt by simp
    with a show "score (fst (step i g)) = score g + 2" by (simp add: step_score)
  qed
  have fifty: "isRunning g \<and> lastTime g = Some t \<and> 0 < t \<and> paced 20 t ticks \<and>
      length (snd (run_ticks ticks g)) = 50 \<longrightarrow>
      score (fst (run_ticks ticks g)) = score g + 100"
    using run_ticks_paced_score [of g t ticks] by simp
  have run: "sorted (map time ticks) \<and> (\<forall>i\<in>set ticks. \<forall>u. lastTime g = Some u \<longrightarrow> u \<le> time i) \<longrightarrow>
      score g \<le> score (fst (run_ticks ticks g))"
    using run_ticks_score_monotone [of ticks g] by blast
  have elapsed: "lastTime g = Some t \<and> t \<noteq> 0 \<longrightarrow> tick_dt i g = min 0.032 ((time i - t) / 1000)"
    by (simp add: tick_dt_elapsed)
  have unset: "lastTime g = None \<or> lastTime g = Some 0 \<longrightarrow> tick_dt i g = 0"
    using tick_dt_unset [of g i] by blast
  have exact: "isRunning g \<and> lastTime g = Some t \<and> t \<noteq> 0 \<and> 0 \<le> dt \<and> dt \<le> 0.032 \<and>
      time i = t + 1000 * dt \<longrightarrow>
      score (fst (step i g)) = score g + \<lfloor>dt * 100\<rfloor> \<and> score g \<le> score (fst (step i g))"
  proof
    assume a: "isRunning g \<and> lastTime g = Some t \<and> t \<noteq> 0 \<and> 0 \<le> dt \<and> dt \<le> 0.032 \<and>
      time i = t + 1000 * dt"
    then have dt: "tick_dt i g = dt" by (intro tick_dt_exact [of g t]) simp_all
    have "0 \<le> \<lfloor>dt * 100\<rfloor>" using a by simp
    with a show "score (fst (step i g)) = score g + \<lfloor>dt * 100\<rfloor> \<and> score g \<le> score (fst (step i g))"
      by (simp add: step_score dt)
  qed
  have clamped: "isRunning g \<and> lastTime g = Some t \<and> t \<noteq> 0 \<and> t + 32 \<le> time i \<longrightarrow>
      score (fst (step i g)) = score g + 3"
  proof
    assume a: "isRunning g \<and> lastTime g = Some t \<and> t \<noteq> 0 \<and> t + 32 \<le> time i"
    then have dt: "tick_dt i g = 0.032" by (intro tick_dt_clamped [of g t]) simp_all
    have "\<lfloor>tick_dt i g * 100\<rfloor> = 3" unfolding dt by simp
    with a show "score (fst (step i g)) = score g + 3" by (simp add: step_score)
  qed
  have first: "isRunning g \<and> (lastTime g = None \<or> lastTime g = Some 0) \<longrightarrow>
      score (fst (step i g)) = score g"
  proof
    assume a: "isRunning g \<and> (lastTime g = None \<or> lastTime g = Some 0)"
    then have "tick_dt i g = 0" by (intro tick_dt_unset) simp
    then show "score (fst (step i g)) = score g" by (simp add: step_score)
  qed
  have idle: "\<not> isRunning g \<longrightarrow> score (fst (step i g)) = score g"
    by (simp add: step_score)
  have paced: "isRunning g \<and> lastTime g = Some t \<and> 0 < t \<and> 0 \<le> d \<and> d \<le> 32 \<and> paced d t ticks \<longrightarrow>
      score (fst (run_ticks ticks g)) =
        score g + \<lfloor>d / 10\<rfloor> * int (length (snd (run_ticks ticks g)))"
    using run_ticks_paced_score_gen [of g t d ticks] by blast
  show ?thesis
    using one tick_dt_le [of i g] mono two fifty run elapsed unset exact clamped first idle paced
    by blast
qed

theorem score_rate_witness:
  "isRunning running_session \<and> tick_dt (tick_at 1020) running_session = 0.02 \<and>
   score (fst (step (tick_at 1020) running_session)) = 2 \<and>
   lastTime running_session = Some 1000 \<and> paced 20 1000 (ticks_from 1000 50) \<and>
   length (snd (run_ticks (ticks_from 1000 50) running_session)) = 50 \<and>
   sorted (map time (ticks_from 1000 50)) \<and>
   score (fst (run_ticks (ticks_from 1000 50) running_session)) = 100 \<and>
   score running_session \<le> score (fst (run_ticks (ticks_from 1000 50) running_session)) \<and>
   time (tick_at 1015) = 1000 + 1000 * 0.015 \<and>
   tick_dt (tick_at 1015) running_session = 0.015 \<and>
   score (fst (step (tick_at 1015) running_session)) = 1 \<and>
   1000 + 32 \<le> time (tick_at 1100) \<and>
   score (fst (step (tick_at 1100) running_session)) = 3 \<and>
   isRunning fresh_session \<and> lastTime fresh_session = None \<and>
   tick_dt (tick_at 1000) fresh_session = 0 \<and>
   score (fst (step (tick_at 1000) fresh_session)) = 0 \<and>
   \<not> isRunning menu_game \<and> score (fst (step (tick_at 1000) menu_game)) = 0"
proof -
  have dt: "tick_dt (tick_at 1020) running_session = 0.02"
    by (simp add: tick_dt_def running_session_fields tick_at_fields)
  have len: "length (snd (run_ticks (ticks_from 1000 50) running_session)) = 50"
    by (simp add: fifty_clear_ticks)
  have after: "\<forall>i\<in>set (ticks_from 1000 50). \<forall>u. lastTime running_session = Some u \<longrightarrow> u \<le> time i"
    using ticks_from_mem by (auto simp: running_session_fields)
  have menu: "\<not> isRunning menu_game" "score menu_game = 0"
    by (simp_all add: menu_game_def initial_game_def)
  have a: "score (fst (step (tick_at 1020) running_session)) = 2 \<and>
      score (fst (run_ticks (ticks_from 1000 50) running_session)) = 100 \<and>
      score running_session \<le> score (fst (run_ticks (ticks_from 1000 50) running_session))"
    using score_rate [where g = running_session and i = "tick_at 1020" and t = 1000
        and ticks = "ticks_from 1000 50" and dt = "0.02" and d = 20]
      dt len after ticks_from_paced [of 1000 50] ticks_from_sorted [of 1000 50]
    by (simp add: running_session_fields)
  have b: "tick_dt (tick_at 1015) running_session = 0.015 \<and>
      score (fst (step (tick_at 1015) running_session)) = 1"
    using score_rate [where g = running_session and i = "tick_at 1015" and t = 1000
        and ticks = "[]" and dt = "0.015" and d = 15]
    by (simp add: running_session_fields tick_at_fields)
  have c: "score (fst (step (tick_at 1100) running_session)) = 3"
    using score_rate [where g = running_session and i = "tick_at 1100" and t = 1000
        and ticks = "[]" and dt = 0 and d = 0]
    by (simp add: running_session_fields tick_at_fields)
  have d: "tick_dt (tick_at 1000) fresh_session = 0 \<and>
      score (fst (step (tick_at 1000) fresh_session)) = 0"
    using score_rate [where g = fresh_session and i = "tick_at 1000" and t = 0
        and ticks = "[]" and dt = 0 and d = 0]
    by (simp add: fresh_session_flags fresh_session_player)
  have e: "score (fst (step (tick_at 1000) menu_game)) = 0"
    using score_rate [where g = menu_game and i = "tick_at 1000" and t = 0
        and ticks = "[]" and dt = 0 and d = 0]
    by (simp add: menu)
  show ?thesis
    using a b c d e dt len ticks_from_paced [of 1000 50] ticks_from_sorted [of 1000 50]
    by (simp add: running_session_fields fresh_session_flags fresh_session_player menu
          tick_at_fields)
qed

text \<open>
  C4. A new session starts with scroll speed 260. A tick sets the speed to
  \<open>min 560 (speed + dt * 8)\<close>, where \<open>dt\<close> is the time step of the tick: for every \<open>dt\<close>
  from 0 to 0.032, a tick that comes \<open>1000 * dt\<close> milliseconds after the one before adds
  \<open>dt * 8\<close>, a tick that comes 32 milliseconds or more after it adds 0.256, and the first
  tick adds nothing, each time up to the ceiling of 560. The new speed is at most 560
  and, for \<open>dt\<close> not negative and a speed of at most 560, not below the speed before.
  Over a session whose timestamps do not decrease the speed stays between 260 and 560
  and is, after any number of the ticks, at most what it is after all of them. Ticks
  that follow one another \<open>d\<close> milliseconds apart, \<open>d\<close> from 0 to 32, add \<open>8 * d / 1000\<close>
  each, up to the ceiling.
\<close>

theorem scroll_speed:
  "speed (resetGame (Some h) g0) = 260 \<and>
   speed (fst (step i g)) = min 560 (speed g + tick_dt i g * 8) \<and>
   speed (fst (step i g)) \<le> 560 \<and>
   (0 \<le> tick_dt i g \<and> speed g \<le> 560 \<longrightarrow> speed g \<le> speed (fst (step i g))) \<and>
   (sorted (map time ticks) \<longrightarrow>
      260 \<le> speed (fst (run_ticks ticks (resetGame (Some h) g0))) \<and>
      speed (fst (run_ticks ticks (resetGame (Some h) g0))) \<le> 560 \<and>
      speed (fst (run_ticks (take n ticks) (resetGame (Some h) g0)))
        \<le> speed (fst (run_ticks ticks (resetGame (Some h) g0)))) \<and>
   (lastTime g = Some t \<and> t \<noteq> 0 \<longrightarrow> tick_dt i g = min 0.032 ((time i - t) / 1000)) \<and>
   (lastTime g = Some t \<and> t \<noteq> 0 \<and> 0 \<le> dt \<and> dt \<le> 0.032 \<and> time i = t + 1000 * dt \<longrightarrow>
      speed (fst (step i g)) = min 560 (speed g + dt * 8)) \<and>
   (lastTime g = Some t \<and> t \<noteq> 0 \<and> t + 32 \<le> time i \<longrightarrow>
      speed (fst (step i g)) = min 560 (speed g + 0.256)) \<and>
   (lastTime g = None \<or> lastTime g = Some 0 \<longrightarrow>
      speed (fst (step i g)) = min 560 (speed g)) \<and>
   (lastTime g = Some t \<and> 0 < t \<and> 0 \<le> d \<and> d \<le> 32 \<and> paced d t ticks \<and> speed g \<le> 560 \<longrightarrow>
      speed (fst (run_ticks ticks g)) =
        min 560 (speed g + 8 * (d / 1000) * of_nat (length (snd (run_ticks ticks g)))))"
proof -
  let ?r = "resetGame (Some h) g0"
  have r: "speed ?r = 260" "lastTime ?r = None"
    by (simp_all add: resetGame_def)
  have run: "260 \<le> speed (fst (run_ticks ticks ?r)) \<and> speed (fst (run_ticks ticks ?r)) \<le> 560 \<and>
      speed (fst (run_ticks (take n ticks) ?r)) \<le> speed (fst (run_ticks ticks ?r))"
    if "sorted (map time ticks)"
    using run_ticks_monotone [of ticks ?r] run_ticks_prefix_speed [of ticks ?r n] that
    by (simp add: r)
  have old: "speed ?r = 260 \<and>
      speed (fst (step i g)) = min 560 (speed g + tick_dt i g * 8) \<and>
      speed (fst (step i g)) \<le> 560 \<and>
      (0 \<le> tick_dt i g \<and> speed g \<le> 560 \<longrightarrow> speed g \<le> speed (fst (step i g))) \<and>
      (sorted (map time ticks) \<longrightarrow>
        260 \<le> speed (fst (run_ticks ticks ?r)) \<and> speed (fst (run_ticks ticks ?r)) \<le> 560 \<and>
        speed (fst (run_ticks (take n ticks) ?r)) \<le> speed (fst (run_ticks ticks ?r)))"
    using run by (simp add: r step_speed)
  have elapsed: "lastTime g = Some t \<and> t \<noteq> 0 \<longrightarrow> tick_dt i g = min 0.032 ((time i - t) / 1000)"
    by (simp add: tick_dt_elapsed)
  have exact: "lastTime g = Some t \<and> t \<noteq> 0 \<and> 0 \<le> dt \<and> dt \<le> 0.032 \<and> time i = t + 1000 * dt \<longrightarrow>
      speed (fst (step i g)) = min 560 (speed g + dt * 8)"
  proof
    assume "lastTime g = Some t \<and> t \<noteq> 0 \<and> 0 \<le> dt \<and> dt \<le> 0.032 \<and> time i = t + 1000 * dt"
    then have "tick_dt i g = dt" by (intro tick_dt_exact [of g t]) simp_all
    then show "speed (fst (step i g)) = min 560 (speed g + dt * 8)" by (simp add: step_speed)
  qed
  have clamped: "lastTime g = Some t \<and> t \<noteq> 0 \<and> t + 32 \<le> time i \<longrightarrow>
      speed (fst (step i g)) = min 560 (speed g + 0.256)"
  proof
    assume "lastTime g = Some t \<and> t \<noteq> 0 \<and> t + 32 \<le> time i"
    then have dt: "tick_dt i g = 0.032" by (intro tick_dt_clamped [of g t]) simp_all
    show "speed (fst (step i g)) = min 560 (speed g + 0.256)"
      unfolding step_speed dt by simp
  qed
  have first: "lastTime g = None \<or> lastTime g = Some 0 \<longrightarrow>
      speed (fst (step i g)) = min 560 (speed g)"
  proof
    assume "lastTime g = None \<or> lastTime g = Some 0"
    then have "tick_dt i g = 0" by (rule tick_dt_unset)
    then show "speed (fst (step i g)) = min 560 (speed g)" by (simp add: step_speed)
  qed
  have paced: "lastTime g = Some t \<and> 0 < t \<and> 0 \<le> d \<and> d \<le> 32 \<and> paced d t ticks \<and> speed g \<le> 560 \<longrightarrow>
      speed (fst (run_ticks ticks g)) =
        min 560 (speed g + 8 * (d / 1000) * of_nat (length (snd (run_ticks ticks g))))"
    using run_ticks_paced_speed [of g t d ticks] by blast
  show ?thesis
    using old elapsed exact clamped first paced by blast
qed

theorem scroll_speed_witness:
  "speed (resetGame (Some 3840) menu_game) = 260 \<and>
   0 \<le> tick_dt (tick_at 1020) running_session \<and> speed running_session \<le> 560 \<and>
   speed (fst (step (tick_at 1020) running_session)) = 260.16 \<and>
   speed running_session \<le> speed (fst (step (tick_at 1020) running_session)) \<and>
   sorted (map time (ticks_from 1000 50)) \<and>
   260 \<le> speed (fst (run_ticks (ticks_from 1000 50) (resetGame (Some 3840) menu_game))) \<and>
   speed (fst (run_ticks (ticks_from 1000 50) (resetGame (Some 3840) menu_game))) \<le> 560 \<and>
   speed (fst (run_ticks (take 10 (ticks_from 1000 50)) (resetGame (Some 3840) menu_game)))
     \<le> speed (fst (run_ticks (ticks_from 1000 50) (resetGame (Some 3840) menu_game))) \<and>
   lastTime running_session = Some 1000 \<and>
   time (tick_at 1015) = 1000 + 1000 * 0.015 \<and>
   speed (fst (step (tick_at 1015) running_session)) = 260.12 \<and>
   1000 + 32 \<le> time (tick_at 1100) \<and>
   speed (fst (step (tick_at 1100) running_session)) = 260.256 \<and>
   lastTime fresh_session = None \<and>
   speed (fst (step (tick_at 1000) fresh_session)) = 260 \<and>
   paced 20 1000 (ticks_from 1000 50) \<and>
   length (snd (run_ticks (ticks_from 1000 50) running_session)) = 50 \<and>
   speed (fst (run_ticks (ticks_from 1000 50) running_session)) = 268"
proof -
  have dt: "tick_dt (tick_at 1020) running_session = 0.02"
    by (simp add: tick_dt_def running_session_fields tick_at_fields)
  have sp: "min 560 (speed running_session + tick_dt (tick_at 1020) running_session * 8) = 260.16"
    unfolding dt by (simp add: running_session_fields)
  have len: "length (snd (run_ticks (ticks_from 1000 50) running_session)) = 50"
    by (simp add: fifty_clear_ticks)
  have a: "speed (resetGame (Some 3840) menu_game) = 260 \<and>
      speed (fst (step (tick_at 1020) running_session)) = 260.16 \<and>
      speed running_session \<le> speed (fst (step (tick_at 1020) running_session)) \<and>
      260 \<le> speed (fst (run_ticks (ticks_from 1000 50) (resetGame (Some 3840) menu_game))) \<and>
      speed (fst (run_ticks (ticks_from 1000 50) (resetGame (Some 3840) menu_game))) \<le> 560 \<and>
      speed (fst (run_ticks (take 10 (ticks_from 1000 50)) (resetGame (Some 3840) menu_game)))
        \<le> speed (fst (run_ticks (ticks_from 1000 50) (resetGame (Some 3840) menu_game))) \<and>
      speed (fst (run_ticks (ticks_from 1000 50) running_session)) = 268"
    using scroll_speed [where h = 3840 and ?g0.0 = menu_game and i = "tick_at 1020"
        and g = running_session and ticks = "ticks_from 1000 50" and n = 10 and t = 1000
        and dt = "0.02" and d = 20]
      ticks_from_sorted [of 1000 50] ticks_from_paced [of 1000 50] sp
    by (simp add: dt len running_session_fields)
  have b: "speed (fst (step (tick_at 1015) running_session)) = 260.12"
    using scroll_speed [where h = 3840 and ?g0.0 = menu_game and i = "tick_at 1015"
        and g = running_session and ticks = "[]" and n = 0 and t = 1000
        and dt = "0.015" and d = 15]
    by (simp add: running_session_fields tick_at_fields)
  have c: "speed (fst (step (tick_at 1100) running_session)) = 260.256"
    using scroll_speed [where h = 3840 and ?g0.0 = menu_game and i = "tick_at 1100"
        and g = running_session and ticks = "[]" and n = 0 and t = 1000
        and dt = 0 and d = 0]
    by (simp add: running_session_fields tick_at_fields)
  have d: "speed (fst (step (tick_at 1000) fresh_session)) = 260"
    using scroll_speed [where h = 3840 and ?g0.0 = menu_game and i = "tick_at 1000"
        and g = fresh_session and ticks = "[]" and n = 0 and t = 0
        and dt = 0 and d = 0]
    by (simp add: fresh_session_player)
  show ?thesis
    using a b c d dt len ticks_from_sorted [of 1000 50] ticks_from_paced [of 1000 50]
    by (simp add: running_session_fields fresh_session_player tick_at_fields)
qed
section \<open>The top-score list\<close>

lemma sort_desc_descending: "sorted_wrt (\<ge>) (sort_desc xs)"
proof -
  have "sorted (map uminus (sort_key uminus xs))" by (rule sorted_sort_key)
  then show ?thesis by (simp add: sort_desc_def sorted_wrt_map)
qed

lemma mset_sort_desc: "mset (sort_desc xs) = mset xs"
  by (simp add: sort_desc_def)

lemma sort_desc_unique:
  assumes "mset zs = mset xs" and "sorted_wrt (\<ge>) zs"
  shows "sort_desc xs = zs"
  unfolding sort_desc_def
proof (rule sort_key_inj_key_eq)
  show "mset xs = mset zs" using assms(1) by simp
  show "inj_on uminus (set xs)" by (simp add: inj_on_def)
  show "sorted (map uminus zs)" using assms(2) by (simp add: sorted_wrt_map)
qed

lemma sort_desc_rev_sort: "sort_desc xs = rev (sort xs)"
proof (rule sort_desc_unique)
  show "mset (rev (sort xs)) = mset xs" by simp
  have "sorted (sort xs)" by simp
  then show "sorted_wrt (\<ge>) (rev (sort xs))" by (simp add: sorted_wrt_rev)
qed

lemma mset_insert_desc: "mset (insert_desc s ys) = add_mset s (mset ys)"
  by (induction ys) simp_all

lemma set_insert_desc: "set (insert_desc s ys) = insert s (set ys)"
  by (induction ys) auto

lemma insert_desc_descending: "sorted_wrt (\<ge>) ys \<Longrightarrow> sorted_wrt (\<ge>) (insert_desc s ys)"
  by (induction ys) (auto simp: set_insert_desc)

lemma sort_desc_snoc: "sorted_wrt (\<ge>) ys \<Longrightarrow> sort_desc (ys @ [s]) = insert_desc s ys"
  by (rule sort_desc_unique) (simp_all add: mset_insert_desc insert_desc_descending)

lemma take_insert_desc: "take n (insert_desc s (take n ys)) = take n (insert_desc s ys)"
proof (induction ys arbitrary: n)
  case Nil
  then show ?case by simp
next
  case (Cons y ys)
  show ?case
  proof (cases n)
    case 0
    then show ?thesis by simp
  next
    case (Suc m)
    show ?thesis
    proof (cases "s \<le> y")
      case True
      with Suc Cons.IH [of m] show ?thesis by simp
    next
      case False
      with Suc show ?thesis by (cases m) simp_all
    qed
  qed
qed

lemma take_sort_desc_snoc:
  "take n (sort_desc (take n (sort_desc xs) @ [s])) = take n (sort_desc (xs @ [s]))"
proof -
  have "sorted_wrt (\<ge>) (take n (sort_desc xs))"
    using sort_desc_descending by (rule sorted_wrt_take)
  then have "sort_desc (take n (sort_desc xs) @ [s]) = insert_desc s (take n (sort_desc xs))"
    by (rule sort_desc_snoc)
  moreover have "sort_desc (xs @ [s]) = insert_desc s (sort_desc xs)"
    by (rule sort_desc_unique)
       (simp_all add: mset_insert_desc mset_sort_desc insert_desc_descending sort_desc_descending)
  ultimately show ?thesis by (simp add: take_insert_desc)
qed

lemma ten_largest:
  assumes "length ss = 11"
  shows "length (take 10 (sort_desc ss)) = 10 \<and>
         mset (take 10 (sort_desc ss)) = mset ss - {#Min (set ss)#}"
proof -
  define d where "d = sort_desc ss"
  define top where "top = take 10 d"
  have len: "length d = 11"
    using assms by (simp add: d_def sort_desc_def)
  then have "length (drop 10 d) = 1"
    by simp
  then obtain l where l: "drop 10 d = [l]"
    by (cases "drop 10 d") auto
  have split: "top @ [l] = d"
    unfolding top_def l [symmetric] by (rule append_take_drop_id)
  have "sorted_wrt (\<ge>) d"
    unfolding d_def by (rule sort_desc_descending)
  then have "sorted_wrt (\<ge>) (top @ [l])"
    by (simp only: split)
  then have low: "\<forall>x\<in>set top. l \<le> x"
    by (simp add: sorted_wrt_append)
  have "set (top @ [l]) = set ss"
    by (simp only: split) (simp add: d_def sort_desc_def)
  then have s: "set ss = insert l (set top)"
    by simp
  have m: "Min (set ss) = l"
    by (rule Min_eqI) (use s low in auto)
  have "mset (top @ [l]) = mset ss"
    by (simp only: split) (simp add: d_def mset_sort_desc)
  then have "mset ss = add_mset l (mset top)"
    by simp
  then have "mset top = mset ss - {#Min (set ss)#}"
    by (simp add: m)
  moreover have "length top = 10"
    using len by (simp add: top_def)
  ultimately show ?thesis
    by (simp add: top_def d_def)
qed


lemma endGame_scores:
  assumes "readable (localStorage g)" and "writable (localStorage g)"
    and "parse_or_empty (dinoScores (localStorage g)) = Inr (JNumArr xs)"
  shows "topScores (endGame s g) = JNumArr (take 10 (sort_desc (xs @ [s])))"
    and "dinoScores (localStorage (endGame s g)) =
           Some (JsonValue (JNumArr (take 10 (sort_desc (xs @ [s])))))"
    and "readable (localStorage (endGame s g))" and "writable (localStorage (endGame s g))"
  using assms
  by (simp_all add: endGame_def record_score_def save_high_score_def try_catch_def bind_exn_def
        getItem_def setItem_def Let_def)

lemma end_games_scores:
  assumes "readable (localStorage g)" and "writable (localStorage g)"
    and "parse_or_empty (dinoScores (localStorage g)) = Inr (JNumArr (take 10 (sort_desc pre)))"
    and "ss \<noteq> []"
  shows "topScores (end_games ss g) = JNumArr (take 10 (sort_desc (pre @ ss))) \<and>
         dinoScores (localStorage (end_games ss g)) =
           Some (JsonValue (JNumArr (take 10 (sort_desc (pre @ ss)))))"
  using assms
proof (induction ss arbitrary: pre g)
  case Nil
  then show ?case by simp
next
  case (Cons s ss)
  let ?g = "endGame s g"
  note e = endGame_scores [OF Cons.prems(1,2,3), of s]
  have top: "topScores ?g = JNumArr (take 10 (sort_desc (pre @ [s])))"
    using e(1) by (simp only: take_sort_desc_snoc)
  have sto: "dinoScores (localStorage ?g) = Some (JsonValue (JNumArr (take 10 (sort_desc (pre @ [s])))))"
    using e(2) by (simp only: take_sort_desc_snoc)
  show ?case
  proof (cases "ss = []")
    case True
    with top sto show ?thesis by simp
  next
    case False
    have "topScores (end_games ss ?g) = JNumArr (take 10 (sort_desc ((pre @ [s]) @ ss))) \<and>
          dinoScores (localStorage (end_games ss ?g)) =
            Some (JsonValue (JNumArr (take 10 (sort_desc ((pre @ [s]) @ ss)))))"
      using e(3,4) sto False by (intro Cons.IH) simp_all
    then show ?thesis by simp
  qed
qed

text \<open>
  C5. With a storage that can be read and written, ending a game with score \<open>s\<close> puts
  \<open>s\<close> at the end of the stored list, sorts the list in descending order, keeps the first
  10 entries, and writes the result to the storage and to the state. On an empty list
  the result is \<open>[s]\<close>. After 11 games on an empty list the result has 10 entries in
  descending order: all the scores but the smallest.
\<close>

theorem top_scores_recorded:
  "readable (localStorage g) \<and> writable (localStorage g) \<longrightarrow>
     (parse_or_empty (dinoScores (localStorage g)) = Inr (JNumArr xs) \<longrightarrow>
        topScores (endGame s g) = JNumArr (take 10 (sort_desc (xs @ [s]))) \<and>
        dinoScores (localStorage (endGame s g)) =
          Some (JsonValue (JNumArr (take 10 (sort_desc (xs @ [s]))))) \<and>
        sort_desc (xs @ [s]) = rev (sort (xs @ [s])) \<and>
        length (take 10 (sort_desc (xs @ [s]))) \<le> 10) \<and>
     (parse_or_empty (dinoScores (localStorage g)) = Inr (JNumArr []) \<longrightarrow>
        topScores (endGame s g) = JNumArr [s] \<and>
        dinoScores (localStorage (endGame s g)) = Some (JsonValue (JNumArr [s])) \<and>
        (length ss = 11 \<longrightarrow>
           topScores (end_games ss g) = JNumArr (take 10 (sort_desc ss)) \<and>
           dinoScores (localStorage (end_games ss g)) =
             Some (JsonValue (JNumArr (take 10 (sort_desc ss)))) \<and>
           sort_desc ss = rev (sort ss) \<and>
           length (take 10 (sort_desc ss)) = 10 \<and>
           sorted_wrt (\<ge>) (take 10 (sort_desc ss)) \<and>
           mset (take 10 (sort_desc ss)) = mset ss - {#Min (set ss)#}))"
proof (intro impI conjI; (elim conjE)?)
  assume rw: "readable (localStorage g)" "writable (localStorage g)"
  {
    assume p: "parse_or_empty (dinoScores (localStorage g)) = Inr (JNumArr xs)"
    show "topScores (endGame s g) = JNumArr (take 10 (sort_desc (xs @ [s])))"
      using rw p by (rule endGame_scores)
    show "dinoScores (localStorage (endGame s g)) =
          Some (JsonValue (JNumArr (take 10 (sort_desc (xs @ [s])))))"
      using rw p by (rule endGame_scores)
    show "sort_desc (xs @ [s]) = rev (sort (xs @ [s]))"
      by (rule sort_desc_rev_sort)
    show "length (take 10 (sort_desc (xs @ [s]))) \<le> 10"
      by simp
  }
  assume p: "parse_or_empty (dinoScores (localStorage g)) = Inr (JNumArr [])"
  show "topScores (endGame s g) = JNumArr [s]"
    using endGame_scores(1) [OF rw p, of s] by (simp add: sort_desc_def)
  show "dinoScores (localStorage (endGame s g)) = Some (JsonValue (JNumArr [s]))"
    using endGame_scores(2) [OF rw p, of s] by (simp add: sort_desc_def)
  assume len: "length ss = 11"
  then have ne: "ss \<noteq> []" by auto
  have p': "parse_or_empty (dinoScores (localStorage g)) = Inr (JNumArr (take 10 (sort_desc [])))"
    using p by (simp add: sort_desc_def)
  show "topScores (end_games ss g) = JNumArr (take 10 (sort_desc ss))"
    using end_games_scores [OF rw p' ne] by simp
  show "dinoScores (localStorage (end_games ss g)) =
          Some (JsonValue (JNumArr (take 10 (sort_desc ss))))"
    using end_games_scores [OF rw p' ne] by simp
  show "sort_desc ss = rev (sort ss)"
    by (rule sort_desc_rev_sort)
  show "length (take 10 (sort_desc ss)) = 10"
    using ten_largest [OF len] by simp
  show "sorted_wrt (\<ge>) (take 10 (sort_desc ss))"
    using sort_desc_descending by (rule sorted_wrt_take)
  show "mset (take 10 (sort_desc ss)) = mset ss - {#Min (set ss)#}"
    using ten_largest [OF len] by simp
qed

theorem top_scores_recorded_witness:
  "readable (localStorage menu_game) \<and> writable (localStorage menu_game) \<and>
   parse_or_empty (dinoScores (localStorage menu_game)) = Inr (JNumArr []) \<and>
   topScores (endGame 7 menu_game) = JNumArr [7] \<and>
   length [5, 3, 9, 1, 7, 2, 8, 6, 4, 10, 0 :: int] = 11 \<and>
   topScores (end_games [5, 3, 9, 1, 7, 2, 8, 6, 4, 10, 0] menu_game) =
     JNumArr [10, 9, 8, 7, 6, 5, 4, 3, 2, 1] \<and>
   dinoScores (localStorage (end_games [5, 3, 9, 1, 7, 2, 8, 6, 4, 10, 0] menu_game)) =
     Some (JsonValue (JNumArr [10, 9, 8, 7, 6, 5, 4, 3, 2, 1]))"
proof -
  have sto: "localStorage menu_game = empty_storage"
    by (simp add: menu_game_def initial_game_def)
  have srt: "take 10 (sort_desc [5, 3, 9, 1, 7, 2, 8, 6, 4, 10, 0]) = [10, 9, 8, 7, 6, 5, 4, 3, 2, 1]"
    by (simp add: sort_desc_def)
  show ?thesis
    using top_scores_recorded [of menu_game "[]" 7 "[5, 3, 9, 1, 7, 2, 8, 6, 4, 10, 0]"]
    by (simp add: sto empty_storage_def srt)
qed

end
